theory Spec2Isabelle
  imports Main "HOL-Library.Word"
begin

section \<open>Values, exceptions and the operator registry\<close>

text \<open>
  A Python \<open>str\<close> is modelled as an Isabelle \<open>string\<close> whose characters are the code
  points 0..255. The values that reach the filter engine come from JSON (\<open>typing.Any\<close>):
  \<open>None\<close>, booleans, integers, floats, strings, lists and dictionaries; the \<open>date\<close>
  converter adds dates. A dictionary is an association list in insertion order. A
  float is kept as its 64-bit pattern; the engine does not inspect it.
\<close>

type_synonym pyfloat = "64 word"

datatype pyval =
    VNone
  | VBool bool
  | VInt int
  | VFloat pyfloat
  | VStr string
  | VList "pyval list"
  | VDict "(string \<times> pyval) list"
  | VDate int int int

text \<open>
  The enum \<open>Op\<close> of \<open>models/filter/models.py\<close>; \<open>all_ops\<close> is the iteration order of the
  enum (\<open>for op in cls\<close>), \<open>symbol\<close> and \<open>aliases\<close> are the first and third component
  of each member's value.
\<close>

datatype Op = EQ | NE | GT | GTE | LT | LTE | IN | NOT_IN | LIKE | ILIKE

definition all_ops :: "Op list" where
  "all_ops = [EQ, NE, GT, GTE, LT, LTE, IN, NOT_IN, LIKE, ILIKE]"

fun symbol :: "Op \<Rightarrow> string" where
  "symbol EQ = ''=''"
| "symbol NE = ''!=''"
| "symbol GT = ''>''"
| "symbol GTE = ''>=''"
| "symbol LT = ''<''"
| "symbol LTE = ''<=''"
| "symbol IN = ''in''"
| "symbol NOT_IN = ''not_in''"
| "symbol LIKE = ''like''"
| "symbol ILIKE = ''ilike''"

fun aliases :: "Op \<Rightarrow> string list" where
  "aliases EQ = [''='', ''eq'']"
| "aliases NE = [''!='', ''ne'', ''not_eq'']"
| "aliases GT = [''>'', ''gt'']"
| "aliases GTE = [''>='', ''gte'', ''ge'']"
| "aliases LT = [''<'', ''lt'']"
| "aliases LTE = [''<='', ''lte'', ''le'']"
| "aliases IN = [''in'', ''IN'']"
| "aliases NOT_IN = [''not_in'', ''NOT_IN'']"
| "aliases LIKE = [''like'', ''LIKE'']"
| "aliases ILIKE = [''ilike'', ''ILIKE'']"

text \<open>\<open>Op.get_all_aliases\<close>: the aliases of every member, in enum order.\<close>

fun collect_aliases :: "Op list \<Rightarrow> string list \<Rightarrow> string list" where
  "collect_aliases [] acc = acc"
| "collect_aliases (op # ops) acc = collect_aliases ops (acc @ aliases op)"

definition get_all_aliases :: "string list" where
  "get_all_aliases = collect_aliases all_ops []"

text \<open>
  Exceptions. The text of a message is kept as the data it is formatted from:
  \<open>UnsupportedOperator s as\<close> is the message of \<open>Op.from_string\<close>, built from the
  operator string and from \<open>get_all_aliases()\<close>; \<open>InvalidFields fs\<close> is the message of
  \<open>filter_by_params\<close>, built from \<open>', '.join(invalid_fields)\<close>. The other messages
  belong to the validators of the pydantic models. A pydantic \<open>ValidationError\<close> is a
  subclass of \<open>ValueError\<close> and carries one message for each violated rule.
\<close>

datatype msg =
    UnsupportedOperator pyval "string list"
  | InvalidFields "string list"
  | EmptyFieldName
  | BadFieldChars string
  | NoneValue
  | TooShort
  | BadType
  | BadGroupOp string
  | EmptyGroup
  | BadOrderBy string
  | BadAsc
  | OutOfRange string
  | NotAnObject nat
  | MissingOperator nat
  | MissingItems nat
  | ItemsNotNonEmptyList nat
  | ItemNotAnObject nat nat
  | MissingName nat nat
  | MissingValue nat nat
  | EmptyFilterKey
  | NoneFilterValue string
  | FieldRequired string
  | BuiltinMessage

datatype exn =
    ValueError msg
  | ValidationError "msg list"
  | TypeError
  | KeyError
  | AttributeError
  | OverflowError
  | StorageError string
  | EXC exn

text \<open>
  \<open>Op.from_string\<close>: the first member, in enum order, whose alias list contains the
  string; \<open>ValueError\<close> when the loop ends without one. The argument is whatever the
  caller passes (\<open>item.get('operator', '=')\<close> is not checked to be a string); a value
  that is not a string is a member of no alias list.
\<close>

fun from_string_loop :: "Op list \<Rightarrow> pyval \<Rightarrow> Op option" where
  "from_string_loop [] v = None"
| "from_string_loop (op # ops) v =
     (if v \<in> VStr ` set (aliases op) then Some op else from_string_loop ops v)"

definition from_string :: "pyval \<Rightarrow> exn + Op" where
  "from_string v =
     (case from_string_loop all_ops v of
        Some op \<Rightarrow> Inr op
      | None \<Rightarrow> Inl (ValueError (UnsupportedOperator v get_all_aliases)))"

section \<open>Strings\<close>

text \<open>
  The string methods the validators use, on the code points 0..255: \<open>str.isspace\<close>,
  \<open>str.isalnum\<close> and \<open>str.lower\<close> follow the Unicode character database, so that
  letters and digits outside ASCII are alphanumeric too.
\<close>

definition isspace_char :: "char \<Rightarrow> bool" where
  "isspace_char c =
     (let n = (of_char c :: nat)
      in (9 \<le> n \<and> n \<le> 13) \<or> (28 \<le> n \<and> n \<le> 32) \<or> n = 133 \<or> n = 160)"

definition isalnum_char :: "char \<Rightarrow> bool" where
  "isalnum_char c =
     (let n = (of_char c :: nat)
      in (48 \<le> n \<and> n \<le> 57) \<or> (65 \<le> n \<and> n \<le> 90) \<or> (97 \<le> n \<and> n \<le> 122)
         \<or> n = 170 \<or> n = 178 \<or> n = 179 \<or> n = 181 \<or> n = 185 \<or> n = 186
         \<or> (188 \<le> n \<and> n \<le> 190) \<or> (192 \<le> n \<and> n \<le> 214)
         \<or> (216 \<le> n \<and> n \<le> 246) \<or> (248 \<le> n \<and> n \<le> 255))"

definition lower_char :: "char \<Rightarrow> char" where
  "lower_char c =
     (let n = (of_char c :: nat)
      in if (65 \<le> n \<and> n \<le> 90) \<or> (192 \<le> n \<and> n \<le> 222 \<and> n \<noteq> 215)
         then char_of (n + 32) else c)"

definition strip :: "string \<Rightarrow> string" where
  "strip s = rev (dropWhile isspace_char (rev (dropWhile isspace_char s)))"

definition isalnum :: "string \<Rightarrow> bool" where
  "isalnum s = (s \<noteq> [] \<and> list_all isalnum_char s)"

definition lower :: "string \<Rightarrow> string" where
  "lower s = map lower_char s"

text \<open>\<open>s.replace(c, t)\<close> for a one-character \<open>c\<close>.\<close>

definition replace :: "char \<Rightarrow> string \<Rightarrow> string \<Rightarrow> string" where
  "replace c t s = concat (map (\<lambda>x. if x = c then t else [x]) s)"

text \<open>\<open>v.replace('_', '').replace('-', '').isalnum()\<close>, the test of both name validators.\<close>

definition name_chars_ok :: "string \<Rightarrow> bool" where
  "name_chars_ok v = isalnum (replace CHR ''-'' [] (replace CHR ''_'' [] v))"

text \<open>\<open>sub in s\<close> on strings.\<close>

fun is_substring :: "string \<Rightarrow> string \<Rightarrow> bool" where
  "is_substring sub [] = (sub = [])"
| "is_substring sub (c # s) = (take (length sub) (c # s) = sub \<or> is_substring sub s)"

section \<open>The filter grammar\<close>

text \<open>
  \<open>Filter\<close>: the validated condition. \<open>Filter_args\<close> are the keyword arguments of the
  constructor; \<open>None\<close> is an argument that is not passed. Pydantic validates the fields
  in declaration order (\<open>name\<close>, \<open>op\<close>, \<open>value\<close>, \<open>type\<close>), each one by its type and
  constraints first and by its \<open>field_validator\<close> after, and raises one
  \<open>ValidationError\<close> with the messages of all fields that failed. A default is not
  validated.
\<close>

record Filter =
  name :: string
  op :: Op
  fvalue :: pyval
  ftype :: "string option"

datatype op_arg = OpMember Op | OpRaw pyval

record Filter_args =
  a_name :: "pyval option"
  a_op :: "op_arg option"
  a_value :: "pyval option"
  a_type :: "pyval option"

definition validate_name :: "string \<Rightarrow> msg + string" where
  "validate_name v =
     (if v = [] \<or> strip v = [] then Inl EmptyFieldName
      else if \<not> name_chars_ok v then Inl (BadFieldChars v)
      else Inr (strip v))"

definition check_name :: "pyval option \<Rightarrow> msg + string" where
  "check_name a =
     (case a of
        None \<Rightarrow> Inl (FieldRequired ''name'')
      | Some (VStr s) \<Rightarrow> (if length s < 1 then Inl TooShort else validate_name s)
      | Some _ \<Rightarrow> Inl BadType)"

definition validate_op :: "op_arg \<Rightarrow> msg + Op" where
  "validate_op v =
     (case v of
        OpMember x \<Rightarrow> Inr x
      | OpRaw (VStr s) \<Rightarrow>
          (case from_string (VStr s) of
             Inr x \<Rightarrow> Inr x
           | Inl (ValueError m) \<Rightarrow> Inl m
           | Inl _ \<Rightarrow> Inl BadType)
      | OpRaw _ \<Rightarrow> Inl BadType)"

definition check_op :: "op_arg option \<Rightarrow> msg + Op" where
  "check_op a = (case a of None \<Rightarrow> Inr EQ | Some v \<Rightarrow> validate_op v)"

definition validate_value :: "pyval \<Rightarrow> msg + pyval" where
  "validate_value v = (if v = VNone then Inl NoneValue else Inr v)"

definition check_value :: "pyval option \<Rightarrow> msg + pyval" where
  "check_value a = (case a of None \<Rightarrow> Inl (FieldRequired ''value'') | Some v \<Rightarrow> validate_value v)"

definition type_literals :: "string list" where
  "type_literals = [''str'', ''int'', ''float'', ''bool'', ''date'']"

definition check_type :: "pyval option \<Rightarrow> msg + string option" where
  "check_type a =
     (case a of
        None \<Rightarrow> Inr None
      | Some VNone \<Rightarrow> Inr None
      | Some (VStr s) \<Rightarrow> (if s \<in> set type_literals then Inr (Some s) else Inl BadType)
      | Some _ \<Rightarrow> Inl BadType)"

definition errs :: "msg + 'a \<Rightarrow> msg list" where
  "errs r = (case r of Inl m \<Rightarrow> [m] | Inr _ \<Rightarrow> [])"

text \<open>
  The messages of the field \<open>op\<close>: a value that is neither a member of \<open>Op\<close> nor a
  string fails both members of the union \<open>Op | str\<close>, with one message for each.
\<close>

definition op_errs :: "op_arg option \<Rightarrow> msg list" where
  "op_errs a =
     (case a of
        Some (OpRaw v) \<Rightarrow>
          (case v of VStr s \<Rightarrow> errs (check_op a) | _ \<Rightarrow> [BadType, BadType])
      | _ \<Rightarrow> errs (check_op a))"

definition Filter_new :: "Filter_args \<Rightarrow> exn + Filter" where
  "Filter_new a =
     (case (check_name (a_name a), check_op (a_op a), check_value (a_value a),
            check_type (a_type a)) of
        (Inr n, Inr x, Inr v, Inr t) \<Rightarrow> Inr \<lparr>name = n, op = x, fvalue = v, ftype = t\<rparr>
      | (n, x, v, t) \<Rightarrow>
          Inl (ValidationError (errs n @ op_errs (a_op a) @ errs v @ errs t)))"

text \<open>
  \<open>FilterGroup\<close> and \<open>FilterQuery\<close>. The engine builds its groups from a non-empty
  list of filters and the operator \<open>'and'\<close> or \<open>'or'\<close>, which the model accepts.
\<close>

record FilterGroup =
  group_op :: string
  group_filters :: "Filter list"

record FilterQuery =
  offset :: int
  limit :: int
  order_by :: "string option"
  desc :: bool
  groups :: "FilterGroup list"

text \<open>
  \<open>validate_order_by\<close> (the same in \<open>FilterQuery\<close> and \<open>FilterParams\<close>): the value is
  trimmed, and a non-empty trimmed value must pass the character test.
\<close>

definition validate_order_by :: "string option \<Rightarrow> msg + string option" where
  "validate_order_by v =
     (case v of
        None \<Rightarrow> Inr None
      | Some s \<Rightarrow>
          (let s' = strip s
           in if s' \<noteq> [] \<and> \<not> name_chars_ok s' then Inl (BadOrderBy s') else Inr (Some s')))"

text \<open>
  \<open>FilterQuery(offset=..., limit=..., order_by=..., desc=..., groups=...)\<close> from typed
  arguments: \<open>offset \<ge> 0\<close>, \<open>1 \<le> limit \<le> 1000\<close> and the \<open>order_by\<close> validator.
\<close>

definition FilterQuery_new ::
  "int \<Rightarrow> int \<Rightarrow> string option \<Rightarrow> bool \<Rightarrow> FilterGroup list \<Rightarrow> exn + FilterQuery" where
  "FilterQuery_new off lim ob d gs =
     (let e1 = (if off \<ge> 0 then [] else [OutOfRange ''offset'']);
          e2 = (if 1 \<le> lim \<and> lim \<le> 1000 then [] else [OutOfRange ''limit'']);
          r = validate_order_by ob
      in case r of
           Inr ob' \<Rightarrow>
             (if e1 @ e2 = [] then
                Inr \<lparr>offset = off, limit = lim, order_by = ob', desc = d, groups = gs\<rparr>
              else Inl (ValidationError (e1 @ e2)))
         | Inl m \<Rightarrow> Inl (ValidationError (e1 @ e2 @ [m])))"

text \<open>
  \<open>FilterParams\<close>. The field \<open>filters\<close> is a mapping, a list or \<open>None\<close>;
  \<open>advanced_filters\<close> is a list or \<open>None\<close>.
\<close>

datatype filters_field = FDict "(string \<times> pyval) list" | FList "pyval list" | FNone

record FilterParams =
  p_offset :: int
  p_limit :: int
  p_order_by :: "string option"
  asc :: int
  filters :: filters_field
  advanced_filters :: "pyval list option"

text \<open>Truth value of \<open>self.advanced_filters\<close> and of \<open>self.filters\<close>.\<close>

definition truthy_list :: "'a list option \<Rightarrow> bool" where
  "truthy_list x = (case x of None \<Rightarrow> False | Some xs \<Rightarrow> xs \<noteq> [])"

definition truthy_filters :: "filters_field \<Rightarrow> bool" where
  "truthy_filters f = (case f of FDict d \<Rightarrow> d \<noteq> [] | FList l \<Rightarrow> l \<noteq> [] | FNone \<Rightarrow> False)"

definition has_key :: "string \<Rightarrow> (string \<times> pyval) list \<Rightarrow> bool" where
  "has_key k d = (map_of d k \<noteq> None)"

text \<open>The inner loop of \<open>normalize_and_validate_filters\<close>, over \<open>enumerate(items)\<close>.\<close>

fun validate_items :: "nat \<Rightarrow> nat \<Rightarrow> pyval list \<Rightarrow> msg option" where
  "validate_items i j [] = None"
| "validate_items i j (item # rest) =
     (case item of
        VDict d \<Rightarrow>
          (if \<not> has_key ''name'' d then Some (MissingName i j)
           else if \<not> has_key ''value'' d then Some (MissingValue i j)
           else validate_items i (Suc j) rest)
      | _ \<Rightarrow> Some (ItemNotAnObject i j))"

text \<open>The outer loop, over \<open>enumerate(self.filters)\<close>.\<close>

fun validate_filter_groups :: "nat \<Rightarrow> pyval list \<Rightarrow> msg option" where
  "validate_filter_groups i [] = None"
| "validate_filter_groups i (g # rest) =
     (case g of
        VDict d \<Rightarrow>
          (if \<not> has_key ''operator'' d then Some (MissingOperator i)
           else if \<not> has_key ''items'' d then Some (MissingItems i)
           else (case map_of d ''items'' of
                   Some (VList its) \<Rightarrow>
                     (if its = [] then Some (ItemsNotNonEmptyList i)
                      else (case validate_items i 0 its of
                              Some m \<Rightarrow> Some m
                            | None \<Rightarrow> validate_filter_groups (Suc i) rest))
                 | _ \<Rightarrow> Some (ItemsNotNonEmptyList i)))
      | _ \<Rightarrow> Some (NotAnObject i))"

text \<open>The loop over \<open>self.filters.items()\<close> of the mapping branch.\<close>

fun validate_simple :: "(string \<times> pyval) list \<Rightarrow> msg option" where
  "validate_simple [] = None"
| "validate_simple ((k, v) # rest) =
     (if k = [] \<or> strip k = [] then Some EmptyFilterKey
      else if v = VNone then Some (NoneFilterValue k)
      else validate_simple rest)"

definition normalize_and_validate_filters :: "FilterParams \<Rightarrow> exn + FilterParams" where
  "normalize_and_validate_filters p =
     (case filters p of
        FList gs \<Rightarrow>
          (let adv = (if \<not> truthy_list (advanced_filters p) then [] else the (advanced_filters p))
           in case validate_filter_groups 0 gs of
                Some m \<Rightarrow> Inl (ValueError m)
              | None \<Rightarrow> Inr (p\<lparr>advanced_filters := Some (adv @ gs), filters := FDict []\<rparr>))
      | FDict d \<Rightarrow>
          (case validate_simple d of
             Some m \<Rightarrow> Inl (ValueError m)
           | None \<Rightarrow> Inr p)
      | FNone \<Rightarrow> Inr p)"

definition is_desc :: "FilterParams \<Rightarrow> bool" where
  "is_desc p = (asc p = 0)"

definition has_only_pagination_and_sorting :: "FilterParams \<Rightarrow> bool" where
  "has_only_pagination_and_sorting p =
     (let has_simple = (case filters p of FDict d \<Rightarrow> d \<noteq> [] | _ \<Rightarrow> False);
          has_advanced = truthy_list (advanced_filters p)
      in \<not> (has_simple \<or> has_advanced))"

record FilterConfig =
  allowed_fields :: "string list option"
  default_limit :: int
  max_limit :: int
  default_order_by :: "string option"

text \<open>
  \<open>FilterConfig.__init__\<close>: an empty or missing allow-list is stored as \<open>None\<close>.
\<close>

definition FilterConfig_init ::
  "string list option \<Rightarrow> int \<Rightarrow> int \<Rightarrow> string option \<Rightarrow> FilterConfig" where
  "FilterConfig_init af dl ml dob =
     \<lparr>allowed_fields = (if truthy_list af then af else None),
      default_limit = dl, max_limit = ml, default_order_by = dob\<rparr>"

definition FilterConfig_default :: FilterConfig where
  "FilterConfig_default = FilterConfig_init None 50 1000 None"

section \<open>The query compiler\<close>

text \<open>
  The builtins of Python that the converters call are parameters of the model:
  \<open>str(x)\<close>, \<open>int(x)\<close>, \<open>float(x)\<close> and
  \<open>datetime.fromisoformat(s).date()\<close>, each returning its value or the exception
  it raises.
\<close>

record pylib =
  py_str :: "pyval \<Rightarrow> exn + string"
  py_int :: "pyval \<Rightarrow> exn + pyval"
  py_float :: "pyval \<Rightarrow> exn + pyval"
  fromisoformat_date :: "string \<Rightarrow> exn + pyval"

definition bnd :: "exn + 'a \<Rightarrow> ('a \<Rightarrow> exn + 'b) \<Rightarrow> exn + 'b" where
  "bnd m f = (case m of Inl e \<Rightarrow> Inl e | Inr x \<Rightarrow> f x)"

text \<open>
  The expressions of the storage collaborator, as the terms the engine builds:
  \<open>Compare opr c v\<close> is \<open>c == v\<close>, \<open>c != v\<close>, \<open>c > v\<close>, \<open>c >= v\<close>, \<open>c < v\<close> or
  \<open>c <= v\<close>; \<open>In_list c vs\<close> is \<open>c.in_(vs)\<close>; \<open>PNot p\<close> is \<open>~p\<close>; \<open>PLike\<close> and
  \<open>PILike\<close> are \<open>c.like(s)\<close> and \<open>c.ilike(s)\<close>; \<open>PAnd\<close> and \<open>POr\<close> are
  \<open>and_(*ps)\<close> and \<open>or_(*ps)\<close>.
\<close>

datatype pred =
    Compare Op string pyval
  | In_list string "pyval list"
  | PNot pred
  | PLike string string
  | PILike string string
  | PAnd "pred list"
  | POr "pred list"

text \<open>
  A \<open>Select\<close> over the bound entity: the predicates added by \<open>.where\<close>, the columns
  added by \<open>.order_by\<close> (with \<open>True\<close> for \<open>.desc()\<close>), and the arguments of \<open>.offset\<close>
  and \<open>.limit\<close>. \<open>Count q\<close> is \<open>select(func.count()).select_from(q.subquery())\<close>.
  The engine is modelled for \<open>base_query=None\<close>, as the service calls it.
\<close>

record select =
  wheres :: "pred list"
  ordering :: "(string \<times> bool) list"
  q_offset :: "int option"
  q_limit :: "int option"

datatype stmt = Rows select | Count select

definition select_model :: select where
  "select_model = \<lparr>wheres = [], ordering = [], q_offset = None, q_limit = None\<rparr>"

definition add_where :: "select \<Rightarrow> pred \<Rightarrow> select" where
  "add_where q p = q\<lparr>wheres := wheres q @ [p]\<rparr>"

text \<open>
  The engine: its configuration, the field names \<open>_get_model_fields\<close> found by
  introspection, and the names for which \<open>getattr(self._model, name)\<close> returns a
  column (for every other name it raises \<open>AttributeError\<close>).
\<close>

record engine =
  config :: FilterConfig
  model_fields :: "string list"
  model_attrs :: "string list"

definition AsyncQueryFilterEngine_init ::
  "string list \<Rightarrow> string list \<Rightarrow> FilterConfig option \<Rightarrow> engine" where
  "AsyncQueryFilterEngine_init flds attrs cfg =
     \<lparr>config = (case cfg of None \<Rightarrow> FilterConfig_default | Some c \<Rightarrow> c),
      model_fields = flds, model_attrs = attrs\<rparr>"

text \<open>\<open>_validate_field\<close> on a string.\<close>

definition validate_field :: "engine \<Rightarrow> string \<Rightarrow> bool" where
  "validate_field eng field_name =
     (if truthy_list (allowed_fields (config eng))
      then field_name \<in> set (the (allowed_fields (config eng)))
      else field_name \<in> set (model_fields eng))"

text \<open>
  \<open>_validate_field\<close> on the value of \<open>item['name']\<close>, which nothing has checked to be a
  string: membership in a set hashes the value, so a list or a dictionary raises
  \<open>TypeError\<close>, and any other value that is not a string is in no set of field names.
\<close>

definition validate_field_val :: "engine \<Rightarrow> pyval \<Rightarrow> exn + bool" where
  "validate_field_val eng v =
     (case v of
        VStr s \<Rightarrow> Inr (validate_field eng s)
      | VList _ \<Rightarrow> Inl TypeError
      | VDict _ \<Rightarrow> Inl TypeError
      | _ \<Rightarrow> Inr False)"

definition getattr_model :: "engine \<Rightarrow> string \<Rightarrow> exn + string" where
  "getattr_model eng n = (if n \<in> set (model_attrs eng) then Inr n else Inl AttributeError)"

text \<open>The exceptions that \<open>except (KeyError, ValueError, TypeError)\<close> catches.\<close>

fun caught :: "exn \<Rightarrow> bool" where
  "caught (ValueError _) = True"
| "caught (ValidationError _) = True"
| "caught TypeError = True"
| "caught KeyError = True"
| "caught _ = False"

text \<open>The table \<open>converters\<close> of \<open>_cast_value\<close>; \<open>KeyError\<close> for a missing key.\<close>

definition converters :: "pylib \<Rightarrow> string \<Rightarrow> pyval \<Rightarrow> exn + pyval" where
  "converters lib type_hint x =
     (if type_hint = ''str'' then bnd (py_str lib x) (\<lambda>s. Inr (VStr s))
      else if type_hint = ''int'' then py_int lib x
      else if type_hint = ''float'' then py_float lib x
      else if type_hint = ''bool'' then
        bnd (py_str lib x) (\<lambda>s. Inr (VBool (lower s \<in> set [''true'', ''1'', ''yes'', ''on''])))
      else if type_hint = ''date'' then
        bnd (py_str lib x) (\<lambda>s. fromisoformat_date lib (replace CHR ''Z'' ''+00:00'' s))
      else Inl KeyError)"

definition cast_value :: "pylib \<Rightarrow> pyval \<Rightarrow> string option \<Rightarrow> exn + pyval" where
  "cast_value lib v type_hint =
     (if type_hint = None \<or> type_hint = Some [] \<or> v = VNone then Inr v
      else (case converters lib (the type_hint) v of
              Inr r \<Rightarrow> Inr r
            | Inl e \<Rightarrow> (if caught e then Inr v else Inl e)))"

text \<open>\<open>Op.apply\<close>: the \<open>operation\<close> of each member. An f-string formats with \<open>str\<close>.\<close>

definition as_list :: "pyval \<Rightarrow> pyval list" where
  "as_list v = (case v of VList l \<Rightarrow> l | _ \<Rightarrow> [v])"

fun op_apply :: "pylib \<Rightarrow> Op \<Rightarrow> string \<Rightarrow> pyval \<Rightarrow> exn + pred" where
  "op_apply lib IN c v = Inr (In_list c (as_list v))"
| "op_apply lib NOT_IN c v = Inr (PNot (In_list c (as_list v)))"
| "op_apply lib LIKE c v = bnd (py_str lib v) (\<lambda>s. Inr (PLike c (''%'' @ s @ ''%'')))"
| "op_apply lib ILIKE c v = bnd (py_str lib v) (\<lambda>s. Inr (PILike c (''%'' @ s @ ''%'')))"
| "op_apply lib opr c v = Inr (Compare opr c v)"

text \<open>
  \<open>_build_condition\<close>: \<open>None\<close> for a field that is not allowed and when the
  \<open>try\<close> block raises \<open>AttributeError\<close>; any other exception leaves the function.
\<close>

definition build_condition :: "engine \<Rightarrow> pylib \<Rightarrow> Filter \<Rightarrow> exn + pred option" where
  "build_condition eng lib filter_item =
     (if \<not> validate_field eng (name filter_item) then Inr None
      else (case bnd (getattr_model eng (name filter_item)) (\<lambda>column.
                 bnd (cast_value lib (fvalue filter_item) (ftype filter_item)) (\<lambda>v.
                 op_apply lib (op filter_item) column v)) of
              Inr p \<Rightarrow> Inr (Some p)
            | Inl AttributeError \<Rightarrow> Inr None
            | Inl e \<Rightarrow> Inl e))"

text \<open>The inner loop of \<open>_apply_filter_groups\<close>, over \<open>group.filters\<close>.\<close>

fun build_conditions ::
  "engine \<Rightarrow> pylib \<Rightarrow> Filter list \<Rightarrow> pred list \<Rightarrow> exn + pred list" where
  "build_conditions eng lib [] conditions = Inr conditions"
| "build_conditions eng lib (f # fs) conditions =
     bnd (build_condition eng lib f) (\<lambda>c.
       build_conditions eng lib fs (case c of None \<Rightarrow> conditions | Some p \<Rightarrow> conditions @ [p]))"

fun apply_filter_groups ::
  "engine \<Rightarrow> pylib \<Rightarrow> select \<Rightarrow> FilterGroup list \<Rightarrow> exn + select" where
  "apply_filter_groups eng lib query [] = Inr query"
| "apply_filter_groups eng lib query (g # gs) =
     bnd (build_conditions eng lib (group_filters g) []) (\<lambda>conditions.
       apply_filter_groups eng lib
         (if conditions \<noteq> [] then
            add_where query (if group_op g = ''and'' then PAnd conditions else POr conditions)
          else query) gs)"

definition truthy_str :: "string option \<Rightarrow> bool" where
  "truthy_str s = (case s of None \<Rightarrow> False | Some x \<Rightarrow> x \<noteq> [])"

definition apply_sorting :: "engine \<Rightarrow> select \<Rightarrow> string option \<Rightarrow> bool \<Rightarrow> exn + select" where
  "apply_sorting eng query ob d =
     (if truthy_str ob \<and> validate_field eng (the ob) then
        bnd (getattr_model eng (the ob)) (\<lambda>column.
          Inr (query\<lparr>ordering := ordering query @ [(column, d)]\<rparr>))
      else if truthy_str (default_order_by (config eng))
              \<and> validate_field eng (the (default_order_by (config eng))) then
        bnd (getattr_model eng (the (default_order_by (config eng)))) (\<lambda>column.
          Inr (query\<lparr>ordering := ordering query @ [(column, False)]\<rparr>))
      else Inr query)"

definition apply_pagination :: "engine \<Rightarrow> select \<Rightarrow> int \<Rightarrow> int \<Rightarrow> select" where
  "apply_pagination eng query off lim =
     query\<lparr>q_offset := Some off, q_limit := Some (min lim (max_limit (config eng)))\<rparr>"

section \<open>The storage collaborator and the entry points\<close>

text \<open>
  The storage collaborator is a parameter: what \<open>session.exec\<close> answers to a
  \<open>Select\<close> and to a count query, or the exception it raises. The session state the
  model threads is the list of the statements executed so far.
\<close>

record 'r storage =
  run_rows :: "select \<Rightarrow> exn + 'r list"
  run_count :: "select \<Rightarrow> exn + int"

record 'r FilterResult =
  items :: "'r list"
  total :: int

text \<open>\<open>FilterResult(items=items, total=total)\<close>, with \<open>total: int = Field(ge=0)\<close>.\<close>

definition FilterResult_new :: "'r list \<Rightarrow> int \<Rightarrow> exn + 'r FilterResult" where
  "FilterResult_new its t =
     (if t \<ge> 0 then Inr \<lparr>items = its, total = t\<rparr>
      else Inl (ValidationError [OutOfRange ''total'']))"

definition filter_by_query ::
  "engine \<Rightarrow> pylib \<Rightarrow> 'r storage \<Rightarrow> FilterQuery \<Rightarrow> stmt list
     \<Rightarrow> (exn + 'r FilterResult) \<times> stmt list" where
  "filter_by_query eng lib st filter_query calls =
     (case apply_filter_groups eng lib select_model (groups filter_query) of
        Inl e \<Rightarrow> (Inl e, calls)
      | Inr query \<Rightarrow>
          (case apply_sorting eng query (order_by filter_query) (desc filter_query) of
             Inl e \<Rightarrow> (Inl e, calls)
           | Inr sorted_query \<Rightarrow>
               (let data_query = apply_pagination eng sorted_query
                                   (offset filter_query) (limit filter_query)
                in case run_count st query of
                     Inl e \<Rightarrow> (Inl e, calls @ [Count query])
                   | Inr t \<Rightarrow>
                       (case run_rows st data_query of
                          Inl e \<Rightarrow> (Inl e, calls @ [Count query, Rows data_query])
                        | Inr its \<Rightarrow>
                            (FilterResult_new its t,
                             calls @ [Count query, Rows data_query])))))"

text \<open>
  The loop of \<open>filter_by_params\<close> over \<open>filter_params.filters.items()\<close>: the filters
  built so far and the names that are not allowed.
\<close>

fun simple_loop ::
  "engine \<Rightarrow> (string \<times> pyval) list \<Rightarrow> Filter list \<Rightarrow> string list
     \<Rightarrow> exn + (Filter list \<times> string list)" where
  "simple_loop eng [] simple_filters invalid_fields = Inr (simple_filters, invalid_fields)"
| "simple_loop eng ((k, v) # rest) simple_filters invalid_fields =
     (if validate_field eng k then
        bnd (Filter_new \<lparr>a_name = Some (VStr k), a_op = Some (OpMember EQ),
                         a_value = Some v, a_type = None\<rparr>) (\<lambda>f.
          simple_loop eng rest (simple_filters @ [f]) invalid_fields)
      else simple_loop eng rest simple_filters (invalid_fields @ [k]))"

text \<open>
  \<open>k in x\<close>, \<open>x[k]\<close>, \<open>x.get(k, d)\<close> and \<open>for item in x\<close> for a string \<open>k\<close> and
  a value \<open>x\<close> that nothing has checked to be a dictionary or a list.
\<close>

definition py_in :: "string \<Rightarrow> pyval \<Rightarrow> exn + bool" where
  "py_in k x =
     (case x of
        VDict d \<Rightarrow> Inr (has_key k d)
      | VStr s \<Rightarrow> Inr (is_substring k s)
      | VList l \<Rightarrow> Inr (VStr k \<in> set l)
      | _ \<Rightarrow> Inl TypeError)"

definition py_getitem :: "pyval \<Rightarrow> string \<Rightarrow> exn + pyval" where
  "py_getitem x k =
     (case x of
        VDict d \<Rightarrow> (case map_of d k of Some v \<Rightarrow> Inr v | None \<Rightarrow> Inl KeyError)
      | _ \<Rightarrow> Inl TypeError)"

definition py_get :: "pyval \<Rightarrow> string \<Rightarrow> pyval \<Rightarrow> exn + pyval" where
  "py_get x k dflt =
     (case x of
        VDict d \<Rightarrow> (case map_of d k of Some v \<Rightarrow> Inr v | None \<Rightarrow> Inr dflt)
      | _ \<Rightarrow> Inl AttributeError)"

definition py_iter :: "pyval \<Rightarrow> exn + pyval list" where
  "py_iter x =
     (case x of
        VList l \<Rightarrow> Inr l
      | VDict d \<Rightarrow> Inr (map (\<lambda>(k, v). VStr k) d)
      | VStr s \<Rightarrow> Inr (map (\<lambda>c. VStr [c]) s)
      | _ \<Rightarrow> Inl TypeError)"

text \<open>\<open>', '.join(invalid_fields)\<close> raises \<open>TypeError\<close> on an item that is not a string.\<close>

fun join_fields :: "pyval list \<Rightarrow> exn + string list" where
  "join_fields [] = Inr []"
| "join_fields (VStr s # rest) = bnd (join_fields rest) (\<lambda>ss. Inr (s # ss))"
| "join_fields (_ # rest) = Inl TypeError"

text \<open>The loop over \<open>advanced_filter['items']\<close>.\<close>

fun item_loop ::
  "engine \<Rightarrow> pyval list \<Rightarrow> Filter list \<Rightarrow> pyval list
     \<Rightarrow> exn + (Filter list \<times> pyval list)" where
  "item_loop eng [] fs invalid_fields = Inr (fs, invalid_fields)"
| "item_loop eng (item # rest) fs invalid_fields =
     bnd (bnd (py_in ''name'' item) (\<lambda>b. if b then py_in ''value'' item else Inr False))
       (\<lambda>present.
         if present then
           bnd (py_getitem item ''name'') (\<lambda>field_name.
           bnd (validate_field_val eng field_name) (\<lambda>ok.
             if \<not> ok then item_loop eng rest fs (invalid_fields @ [field_name])
             else
               bnd (py_get item ''operator'' (VStr ''='')) (\<lambda>op_str.
               bnd (from_string op_str) (\<lambda>filter_op.
               bnd (py_getitem item ''value'') (\<lambda>v.
               bnd (py_get item ''data_type'' VNone) (\<lambda>dt.
               bnd (Filter_new \<lparr>a_name = Some field_name, a_op = Some (OpMember filter_op),
                                a_value = Some v, a_type = Some dt\<rparr>) (\<lambda>f.
                 item_loop eng rest (fs @ [f]) invalid_fields)))))))
         else item_loop eng rest fs invalid_fields)"

text \<open>The loop over \<open>filter_params.advanced_filters\<close>.\<close>

fun advanced_loop ::
  "engine \<Rightarrow> pyval list \<Rightarrow> FilterGroup list \<Rightarrow> exn + FilterGroup list" where
  "advanced_loop eng [] advanced_groups = Inr advanced_groups"
| "advanced_loop eng (advanced_filter # rest) advanced_groups =
     bnd (bnd (py_in ''operator'' advanced_filter)
            (\<lambda>b. if b then py_in ''items'' advanced_filter else Inr False))
       (\<lambda>present.
         if present then
           bnd (py_getitem advanced_filter ''operator'') (\<lambda>oper.
           bnd (case oper of VStr s \<Rightarrow> Inr (lower s) | _ \<Rightarrow> Inl AttributeError) (\<lambda>group_op_str.
           bnd (py_getitem advanced_filter ''items'') (\<lambda>its.
           bnd (py_iter its) (\<lambda>item_list.
           bnd (item_loop eng item_list [] []) (\<lambda>(fs, invalid_fields).
             if invalid_fields \<noteq> [] then
               bnd (join_fields invalid_fields) (\<lambda>names. Inl (ValueError (InvalidFields names)))
             else
               advanced_loop eng rest
                 (if fs \<noteq> [] then
                    advanced_groups @
                      [\<lparr>group_op = (if group_op_str \<in> set [''and'', ''all''] then ''and''
                                     else ''or''),
                        group_filters = fs\<rparr>]
                  else advanced_groups))))))
         else advanced_loop eng rest advanced_groups)"

text \<open>
  The part of \<open>filter_by_params\<close> before the first \<open>session.exec\<close>: the query with
  the predicates of the simple and of the advanced filters.
\<close>

definition params_simple :: "engine \<Rightarrow> pylib \<Rightarrow> FilterParams \<Rightarrow> select \<Rightarrow> exn + select" where
  "params_simple eng lib p query =
     (if truthy_filters (filters p) then
        (case filters p of
           FDict d \<Rightarrow>
             bnd (simple_loop eng d [] []) (\<lambda>(simple_filters, invalid_fields).
               if invalid_fields \<noteq> [] then Inl (ValueError (InvalidFields invalid_fields))
               else if simple_filters \<noteq> [] then
                 apply_filter_groups eng lib query
                   [\<lparr>group_op = ''and'', group_filters = simple_filters\<rparr>]
               else Inr query)
         | _ \<Rightarrow> Inl AttributeError)
      else Inr query)"

definition params_advanced :: "engine \<Rightarrow> pylib \<Rightarrow> FilterParams \<Rightarrow> select \<Rightarrow> exn + select" where
  "params_advanced eng lib p query =
     (if truthy_list (advanced_filters p) then
        bnd (advanced_loop eng (the (advanced_filters p)) []) (\<lambda>advanced_groups.
          if advanced_groups \<noteq> [] then apply_filter_groups eng lib query advanced_groups
          else Inr query)
      else Inr query)"

definition filter_by_params ::
  "engine \<Rightarrow> pylib \<Rightarrow> 'r storage \<Rightarrow> FilterParams \<Rightarrow> stmt list
     \<Rightarrow> (exn + 'r FilterResult) \<times> stmt list" where
  "filter_by_params eng lib st p calls =
     (case bnd (params_simple eng lib p select_model) (params_advanced eng lib p) of
        Inl e \<Rightarrow> (Inl e, calls)
      | Inr query \<Rightarrow>
          (case run_count st query of
             Inl e \<Rightarrow> (Inl e, calls @ [Count query])
           | Inr t \<Rightarrow>
               (case apply_sorting eng query (p_order_by p) (is_desc p) of
                  Inl e \<Rightarrow> (Inl e, calls @ [Count query])
                | Inr sorted_query \<Rightarrow>
                    (let data_query = apply_pagination eng sorted_query (p_offset p) (p_limit p)
                     in case run_rows st data_query of
                          Inl e \<Rightarrow> (Inl e, calls @ [Count query, Rows data_query])
                        | Inr its \<Rightarrow>
                            (FilterResult_new its t,
                             calls @ [Count query, Rows data_query])))))"

text \<open>\<open>paginate\<close>: \<open>size or default_limit\<close>, then a validated \<open>FilterQuery\<close>.\<close>

definition paginate ::
  "engine \<Rightarrow> pylib \<Rightarrow> 'r storage \<Rightarrow> int \<Rightarrow> int option \<Rightarrow> string option \<Rightarrow> bool \<Rightarrow> stmt list
     \<Rightarrow> (exn + 'r FilterResult) \<times> stmt list" where
  "paginate eng lib st page sz ob d calls =
     (let size' = (case sz of None \<Rightarrow> default_limit (config eng)
                   | Some s \<Rightarrow> if s = 0 then default_limit (config eng) else s);
          off = (page - 1) * size'
      in case FilterQuery_new off size' ob d [] of
           Inl e \<Rightarrow> (Inl e, calls)
         | Inr filter_query \<Rightarrow> filter_by_query eng lib st filter_query calls)"

text \<open>
  \<open>FilterService.filter_with_json\<close> with a session. The pydantic constructors
  \<open>FilterQuery(**json_data)\<close> and \<open>FilterParams(**json_data)\<close> are parameters. A
  \<open>ValidationError\<close> or \<open>ValueError\<close> leaves the service wrapped in
  \<open>EXC(ErrorCode.ValidationError, ...)\<close>; any other exception leaves it unchanged.
\<close>

record parsers =
  parse_query :: "(string \<times> pyval) list \<Rightarrow> exn + FilterQuery"
  parse_params :: "(string \<times> pyval) list \<Rightarrow> exn + FilterParams"

definition get_engine :: "string list \<Rightarrow> string list \<Rightarrow> engine option \<Rightarrow> engine" where
  "get_engine flds attrs e =
     (case e of None \<Rightarrow> AsyncQueryFilterEngine_init flds attrs None | Some x \<Rightarrow> x)"

fun wrap_exc :: "exn \<Rightarrow> exn" where
  "wrap_exc (ValidationError ms) = EXC (ValidationError ms)"
| "wrap_exc (ValueError m) = EXC (ValueError m)"
| "wrap_exc e = e"

definition service_result ::
  "(exn + 'a) \<times> stmt list \<Rightarrow> (exn + 'a) \<times> stmt list" where
  "service_result r = (case r of (Inl e, c) \<Rightarrow> (Inl (wrap_exc e), c) | (Inr x, c) \<Rightarrow> (Inr x, c))"

definition filter_with_json ::
  "string list \<Rightarrow> string list \<Rightarrow> pylib \<Rightarrow> parsers \<Rightarrow> 'r storage \<Rightarrow> (string \<times> pyval) list
     \<Rightarrow> engine option \<Rightarrow> stmt list \<Rightarrow> (exn + 'r FilterResult) \<times> stmt list" where
  "filter_with_json flds attrs lib ps st json_data e calls =
     service_result
       (let eng = get_engine flds attrs e
        in if json_data = [] then paginate eng lib st 1 (Some 50) None False calls
           else if has_key ''groups'' json_data then
             (case parse_query ps json_data of
                Inl x \<Rightarrow> (Inl x, calls)
              | Inr query \<Rightarrow> filter_by_query eng lib st query calls)
           else
             (case parse_params ps json_data of
                Inl x \<Rightarrow> (Inl x, calls)
              | Inr params \<Rightarrow>
                  if has_only_pagination_and_sorting params then
                    (case FilterQuery_new (p_offset params) (p_limit params) (p_order_by params)
                            (is_desc params) [] of
                       Inl x \<Rightarrow> (Inl x, calls)
                     | Inr filter_query \<Rightarrow> filter_by_query eng lib st filter_query calls)
                  else filter_by_params eng lib st params calls))"

section \<open>A reference storage and sample builtins\<close>

text \<open>
  Modelled from the spec: the storage collaborator, which is not part of the
  repository. By section 6 of the specification a composed query selects the rows
  that satisfy every \<open>where\<close> predicate, orders them, skips \<open>offset\<close> rows and
  keeps at most \<open>limit\<close> rows, and the count of a query is the number of its rows.
  What a predicate means on a row (\<open>holds\<close>) and how rows are ordered (\<open>sorter\<close>)
  stay parameters. A negative \<open>offset\<close> or \<open>limit\<close> is an error of the storage.
\<close>

definition table_rows ::
  "(pred \<Rightarrow> 'r \<Rightarrow> bool) \<Rightarrow> ((string \<times> bool) list \<Rightarrow> 'r list \<Rightarrow> 'r list) \<Rightarrow> 'r list
     \<Rightarrow> select \<Rightarrow> 'r list" where
  "table_rows holds sorter rows q =
     (let matching = filter (\<lambda>r. list_all (\<lambda>p. holds p r) (wheres q)) rows;
          sorted = (if ordering q = [] then matching else sorter (ordering q) matching);
          dropped = (case q_offset q of None \<Rightarrow> sorted | Some n \<Rightarrow> drop (nat n) sorted)
      in case q_limit q of None \<Rightarrow> dropped | Some n \<Rightarrow> take (nat n) dropped)"

definition valid_bounds :: "select \<Rightarrow> bool" where
  "valid_bounds q =
     ((case q_offset q of None \<Rightarrow> True | Some n \<Rightarrow> 0 \<le> n)
      \<and> (case q_limit q of None \<Rightarrow> True | Some n \<Rightarrow> 0 \<le> n))"

definition table_storage ::
  "(pred \<Rightarrow> 'r \<Rightarrow> bool) \<Rightarrow> ((string \<times> bool) list \<Rightarrow> 'r list \<Rightarrow> 'r list) \<Rightarrow> 'r list
     \<Rightarrow> 'r storage" where
  "table_storage holds sorter rows =
     \<lparr>run_rows = (\<lambda>q. if valid_bounds q then Inr (table_rows holds sorter rows q)
                       else Inl (StorageError ''negative bound'')),
      run_count = (\<lambda>q. if valid_bounds q
                        then Inr (int (length (table_rows holds sorter rows q)))
                        else Inl (StorageError ''negative bound''))\<rparr>"

text \<open>
  For the evaluation of concrete examples: rows as dictionaries, the comparison
  predicates on integer columns, membership, negation, conjunction and disjunction
  (a pattern predicate matches no row here), and ordering by integer columns.
\<close>

fun compare_int :: "Op \<Rightarrow> int \<Rightarrow> int \<Rightarrow> bool" where
  "compare_int EQ a b = (a = b)"
| "compare_int NE a b = (a \<noteq> b)"
| "compare_int GT a b = (a > b)"
| "compare_int GTE a b = (a \<ge> b)"
| "compare_int LT a b = (a < b)"
| "compare_int LTE a b = (a \<le> b)"
| "compare_int _ a b = False"

fun sample_holds :: "pred \<Rightarrow> (string \<times> pyval) list \<Rightarrow> bool" where
  "sample_holds (Compare opr c v) r =
     (case (map_of r c, v) of (Some (VInt a), VInt b) \<Rightarrow> compare_int opr a b | _ \<Rightarrow> False)"
| "sample_holds (In_list c vs) r = (case map_of r c of Some x \<Rightarrow> x \<in> set vs | None \<Rightarrow> False)"
| "sample_holds (PNot p) r = (\<not> sample_holds p r)"
| "sample_holds (PAnd ps) r = list_all (\<lambda>p. sample_holds p r) ps"
| "sample_holds (POr ps) r = list_ex (\<lambda>p. sample_holds p r) ps"
| "sample_holds (PLike c s) r = False"
| "sample_holds (PILike c s) r = False"

definition int_key :: "string \<Rightarrow> bool \<Rightarrow> (string \<times> pyval) list \<Rightarrow> int" where
  "int_key c d r = (case map_of r c of Some (VInt a) \<Rightarrow> (if d then - a else a) | _ \<Rightarrow> 0)"

definition sample_sorter ::
  "(string \<times> bool) list \<Rightarrow> (string \<times> pyval) list list \<Rightarrow> (string \<times> pyval) list list" where
  "sample_sorter ords rows = foldr (\<lambda>(c, d) acc. sort_key (int_key c d) acc) ords rows"

text \<open>
  Sample builtins, for the evaluation of concrete examples: what CPython answers on
  \<open>None\<close>, booleans, integers and strings for \<open>str\<close>; on integers, booleans,
  strings of ASCII digits and strings of ASCII letters for \<open>int\<close>; on floats for
  \<open>float\<close>; and on the strings of the shapes \<open>YYYY-MM-DD\<close> and
  \<open>YYYY-MM-DDTHH:MM:SS+00:00\<close> for the date, which is a \<open>ValueError\<close> when a field
  is out of range. Every theorem below holds for all builtins; the sample is used at
  these inputs only.
\<close>

fun show_nat :: "nat \<Rightarrow> string" where
  "show_nat n =
     (if n < 10 then [char_of (48 + n)] else show_nat (n div 10) @ [char_of (48 + n mod 10)])"

definition show_int :: "int \<Rightarrow> string" where
  "show_int n = (if n < 0 then CHR ''-'' # show_nat (nat (- n)) else show_nat (nat n))"

definition is_digit :: "char \<Rightarrow> bool" where
  "is_digit c = (48 \<le> (of_char c :: nat) \<and> (of_char c :: nat) \<le> 57)"

definition read_nat :: "string \<Rightarrow> nat" where
  "read_nat s = foldl (\<lambda>acc c. 10 * acc + (of_char c - 48)) 0 s"

definition sample_str :: "pyval \<Rightarrow> exn + string" where
  "sample_str v =
     (case v of
        VStr s \<Rightarrow> Inr s
      | VNone \<Rightarrow> Inr ''None''
      | VBool b \<Rightarrow> Inr (if b then ''True'' else ''False'')
      | VInt n \<Rightarrow> Inr (show_int n)
      | _ \<Rightarrow> Inr [])"

definition sample_int :: "pyval \<Rightarrow> exn + pyval" where
  "sample_int v =
     (case v of
        VInt n \<Rightarrow> Inr (VInt n)
      | VBool b \<Rightarrow> Inr (VInt (if b then 1 else 0))
      | VStr s \<Rightarrow> (if s \<noteq> [] \<and> list_all is_digit s then Inr (VInt (int (read_nat s)))
                    else Inl (ValueError BuiltinMessage))
      | _ \<Rightarrow> Inl TypeError)"

definition sample_float :: "pyval \<Rightarrow> exn + pyval" where
  "sample_float v =
     (case v of
        VFloat f \<Rightarrow> Inr (VFloat f)
      | _ \<Rightarrow> Inl TypeError)"

definition days_in_month :: "nat \<Rightarrow> nat \<Rightarrow> nat" where
  "days_in_month y m =
     (if m = 2 then (if y mod 4 = 0 \<and> (y mod 100 \<noteq> 0 \<or> y mod 400 = 0) then 29 else 28)
      else if m = 4 \<or> m = 6 \<or> m = 9 \<or> m = 11 then 30 else 31)"

definition date_shape :: "string \<Rightarrow> bool" where
  "date_shape t =
     (length t = 10 \<and> list_all is_digit (take 4 t) \<and> t ! 4 = CHR ''-''
      \<and> list_all is_digit (take 2 (drop 5 t)) \<and> t ! 7 = CHR ''-''
      \<and> list_all is_digit (drop 8 t))"

definition time_shape :: "string \<Rightarrow> bool" where
  "time_shape t =
     (length t = 15 \<and> t ! 0 = CHR ''T''
      \<and> list_all is_digit (take 2 (drop 1 t)) \<and> t ! 3 = CHR '':''
      \<and> list_all is_digit (take 2 (drop 4 t)) \<and> t ! 6 = CHR '':''
      \<and> list_all is_digit (take 2 (drop 7 t)) \<and> drop 9 t = ''+00:00''
      \<and> read_nat (take 2 (drop 1 t)) < 24 \<and> read_nat (take 2 (drop 4 t)) < 60
      \<and> read_nat (take 2 (drop 7 t)) < 60)"

definition sample_date :: "string \<Rightarrow> exn + pyval" where
  "sample_date s =
     (let y = read_nat (take 4 s); m = read_nat (take 2 (drop 5 s));
          d = read_nat (take 2 (drop 8 s))
      in if date_shape (take 10 s) \<and> (length s = 10 \<or> time_shape (drop 10 s))
            \<and> 1 \<le> y \<and> 1 \<le> m \<and> m \<le> 12 \<and> 1 \<le> d \<and> d \<le> days_in_month y m
         then Inr (VDate (int y) (int m) (int d))
         else Inl (ValueError BuiltinMessage))"

definition sample_lib :: pylib where
  "sample_lib = \<lparr>py_str = sample_str, py_int = sample_int, py_float = sample_float,
                 fromisoformat_date = sample_date\<rparr>"

text \<open>
  The entity of the specification's example, \<open>User{id, name, age}\<close> with three rows,
  an engine bound to it with the default configuration, and its storage.
\<close>

definition users :: "(string \<times> pyval) list list" where
  "users =
     [[(''id'', VInt 1), (''name'', VStr ''a''), (''age'', VInt 20)],
      [(''id'', VInt 2), (''name'', VStr ''b''), (''age'', VInt 30)],
      [(''id'', VInt 3), (''name'', VStr ''c''), (''age'', VInt 40)]]"

definition user_engine :: engine where
  "user_engine =
     AsyncQueryFilterEngine_init [''id'', ''name'', ''age''] [''id'', ''name'', ''age''] None"

definition user_storage :: "(string \<times> pyval) list storage" where
  "user_storage = table_storage sample_holds sample_sorter users"

declare show_nat.simps [simp del]

text \<open>
  The query of the specification's example: the users of age 30 or more, by
  descending age.
\<close>

definition age_query :: FilterQuery where
  "age_query =
     \<lparr>offset = 0, limit = 50, order_by = Some ''age'', desc = True,
      groups = [\<lparr>group_op = ''and'',
                 group_filters = [\<lparr>name = ''age'', op = GTE, fvalue = VInt 30, ftype = None\<rparr>]\<rparr>]\<rparr>"

text \<open>
  The shape that section 4.2 of the specification requires of a list-shaped
  \<open>filters\<close>, in the words of the specification: each element has \<open>operator\<close> and
  a non-empty \<open>items\<close> list, and each item has \<open>name\<close> and \<open>value\<close>.
\<close>

definition item_shape_ok :: "pyval \<Rightarrow> bool" where
  "item_shape_ok item =
     (case item of VDict d \<Rightarrow> has_key ''name'' d \<and> has_key ''value'' d | _ \<Rightarrow> False)"

definition group_shape_ok :: "pyval \<Rightarrow> bool" where
  "group_shape_ok g =
     (case g of
        VDict d \<Rightarrow>
          has_key ''operator'' d
          \<and> (case map_of d ''items'' of
                Some (VList its) \<Rightarrow> its \<noteq> [] \<and> list_all item_shape_ok its
              | _ \<Rightarrow> False)
      | _ \<Rightarrow> False)"

text \<open>Two groups in the advanced shape, over the fields of the example entity.\<close>

definition age_group :: pyval where
  "age_group =
     VDict [(''operator'', VStr ''and''),
            (''items'', VList [VDict [(''name'', VStr ''age''), (''value'', VInt 30),
                                      (''operator'', VStr ''>='')]])]"

definition name_group :: pyval where
  "name_group =
     VDict [(''operator'', VStr ''or''),
            (''items'', VList [VDict [(''name'', VStr ''name''), (''value'', VStr ''b'')]])]"

text \<open>
  The charset of the specification, \<open>[A-Za-z0-9_-]+\<close>, in the words of the
  specification.
\<close>

definition ident_char :: "char \<Rightarrow> bool" where
  "ident_char c =
     (let n = (of_char c :: nat)
      in (48 \<le> n \<and> n \<le> 57) \<or> (65 \<le> n \<and> n \<le> 90) \<or> (97 \<le> n \<and> n \<le> 122)
         \<or> c = CHR ''_'' \<or> c = CHR ''-'')"

definition ident_charset :: "string \<Rightarrow> bool" where
  "ident_charset s = (s \<noteq> [] \<and> list_all ident_char s)"

definition is_ascii :: "char \<Rightarrow> bool" where
  "is_ascii c = ((of_char c :: nat) < 128)"

text \<open>The characters a validated name is made of.\<close>

definition name_char :: "char \<Rightarrow> bool" where
  "name_char c = (isalnum_char c \<or> c = CHR ''_'' \<or> c = CHR ''-'')"

text \<open>
  For the evaluation of concrete examples: an engine over the example entity whose
  configuration has \<open>default_limit=20\<close>, the default \<open>FilterParams()\<close>, and
  constructors for the service that reject every input (the service does not call
  them on an empty input).
\<close>

definition small_engine :: engine where
  "small_engine =
     AsyncQueryFilterEngine_init [''id'', ''name'', ''age''] [''id'', ''name'', ''age'']
       (Some (FilterConfig_init None 20 1000 None))"

definition FilterParams_default :: FilterParams where
  "FilterParams_default =
     \<lparr>p_offset = 0, p_limit = 50, p_order_by = None, asc = 1, filters = FDict [],
      advanced_filters = Some []\<rparr>"

definition sample_parsers :: parsers where
  "sample_parsers =
     \<lparr>parse_query = (\<lambda>j. Inl (ValidationError [BadType])),
      parse_params = (\<lambda>j. Inl (ValidationError [BadType]))\<rparr>"

text \<open>
  An entry of \<open>advanced_filters\<close> that is an object without the key \<open>operator\<close> or
  without the key \<open>items\<close>, and an item that is an object without the key \<open>name\<close>
  or without the key \<open>value\<close>.
\<close>

definition lacks_group_keys :: "pyval \<Rightarrow> bool" where
  "lacks_group_keys g =
     (case g of VDict d \<Rightarrow> \<not> (has_key ''operator'' d \<and> has_key ''items'' d) | _ \<Rightarrow> False)"

definition lacks_item_keys :: "pyval \<Rightarrow> bool" where
  "lacks_item_keys item =
     (case item of VDict d \<Rightarrow> \<not> (has_key ''name'' d \<and> has_key ''value'' d) | _ \<Rightarrow> False)"

definition keeps_group :: "pyval \<Rightarrow> bool" where
  "keeps_group g = (\<not> lacks_group_keys g)"

definition keeps_item :: "pyval \<Rightarrow> bool" where
  "keeps_item item = (\<not> lacks_item_keys item)"

text \<open>
  For the statement about fields that are not allowed. \<open>item_present\<close> is the test
  \<open>'name' in item and 'value' in item\<close> of the loop over the items; an item that
  fails it is skipped. \<open>invalid_names\<close> are the names the loop collects: those of the
  items that pass the test, when the name is a string that the engine does not allow,
  in order. An item is quiet when the loop passes it without an exception: it is
  skipped, or it passes the test with a string name that is not allowed, or with one
  that is allowed and then its operator resolves and its condition validates.
\<close>

definition is_ok :: "exn + 'a \<Rightarrow> bool" where
  "is_ok r = (case r of Inr x \<Rightarrow> True | Inl e \<Rightarrow> False)"

definition item_present :: "pyval \<Rightarrow> exn + bool" where
  "item_present item =
     bnd (py_in ''name'' item) (\<lambda>b. if b then py_in ''value'' item else Inr False)"

definition item_field :: "pyval \<Rightarrow> string option" where
  "item_field item =
     (if item_present item = Inr True then
        (case py_getitem item ''name'' of Inr (VStr n) \<Rightarrow> Some n | _ \<Rightarrow> None)
      else None)"

definition invalid_names :: "engine \<Rightarrow> pyval list \<Rightarrow> string list" where
  "invalid_names eng its =
     filter (\<lambda>n. \<not> validate_field eng n) (List.map_filter item_field its)"

definition item_quiet :: "engine \<Rightarrow> pyval \<Rightarrow> bool" where
  "item_quiet eng item =
     (case item_present item of
        Inl e \<Rightarrow> False
      | Inr present \<Rightarrow>
          (if \<not> present then True
           else (case py_getitem item ''name'' of
                   Inr (VStr n) \<Rightarrow>
                     (if \<not> validate_field eng n then True
                      else is_ok
                        (bnd (py_get item ''operator'' (VStr ''='')) (\<lambda>op_str.
                         bnd (from_string op_str) (\<lambda>filter_op.
                         bnd (py_getitem item ''value'') (\<lambda>v.
                         bnd (py_get item ''data_type'' VNone) (\<lambda>dt.
                           Filter_new \<lparr>a_name = Some (VStr n),
                                       a_op = Some (OpMember filter_op),
                                       a_value = Some v, a_type = Some dt\<rparr>))))))
                 | _ \<Rightarrow> False)))"

text \<open>
  A key and value of the simple mapping whose condition validates when the key is
  allowed.
\<close>

definition simple_builds :: "engine \<Rightarrow> string \<times> pyval \<Rightarrow> bool" where
  "simple_builds eng kv =
     (\<not> validate_field eng (fst kv)
      \<or> is_ok (Filter_new \<lparr>a_name = Some (VStr (fst kv)), a_op = Some (OpMember EQ),
                           a_value = Some (snd kv), a_type = None\<rparr>))"

text \<open>
  Two groups over fields the example entity does not have, and parameters whose
  simple mapping and whose advanced filters each name such a field.
\<close>

definition hidden_group :: pyval where
  "hidden_group =
     VDict [(''operator'', VStr ''and''),
            (''items'', VList [VDict [(''name'', VStr ''hidden''), (''value'', VInt 1)],
                               VDict [(''name'', VStr ''age''), (''value'', VInt 30)],
                               VDict [(''name'', VStr ''token''), (''value'', VInt 2)]])]"

definition other_group :: pyval where
  "other_group =
     VDict [(''operator'', VStr ''or''),
            (''items'', VList [VDict [(''name'', VStr ''password''), (''value'', VInt 3)]])]"

definition secret_params :: FilterParams where
  "secret_params =
     \<lparr>p_offset = 0, p_limit = 50, p_order_by = None, asc = 1,
      filters = FDict [(''secret'', VInt 1), (''age'', VInt 30), (''salt'', VInt 2)],
      advanced_filters = Some [hidden_group]\<rparr>"

text \<open>
  The offending fields of the claim about \<open>filter_by_params\<close>, in the words of the
  specification: every field name that the authorizer does not allow, across the
  simple mapping and the items of the advanced groups.
\<close>

definition item_name :: "pyval \<Rightarrow> string option" where
  "item_name item =
     (case item of
        VDict d \<Rightarrow> (case map_of d ''name'' of Some (VStr n) \<Rightarrow> Some n | _ \<Rightarrow> None)
      | _ \<Rightarrow> None)"

definition unauthorized :: "engine \<Rightarrow> pyval list \<Rightarrow> string list" where
  "unauthorized eng its = filter (\<lambda>n. \<not> validate_field eng n) (List.map_filter item_name its)"

definition group_items :: "pyval \<Rightarrow> pyval list" where
  "group_items g =
     (case g of
        VDict d \<Rightarrow> (case map_of d ''items'' of Some (VList its) \<Rightarrow> its | _ \<Rightarrow> [])
      | _ \<Rightarrow> [])"

definition offending_fields :: "engine \<Rightarrow> FilterParams \<Rightarrow> string list" where
  "offending_fields eng p =
     filter (\<lambda>k. \<not> validate_field eng k)
       (case filters p of FDict d \<Rightarrow> map fst d | _ \<Rightarrow> [])
     @ concat (map (\<lambda>g. unauthorized eng (group_items g))
         (case advanced_filters p of None \<Rightarrow> [] | Some gs \<Rightarrow> gs))"

section \<open>Operator resolution\<close>

lemma get_all_aliases_eq:
  "get_all_aliases =
     [''='', ''eq'', ''!='', ''ne'', ''not_eq'', ''>'', ''gt'', ''>='', ''gte'', ''ge'',
      ''<'', ''lt'', ''<='', ''lte'', ''le'', ''in'', ''IN'', ''not_in'', ''NOT_IN'',
      ''like'', ''LIKE'', ''ilike'', ''ILIKE'']"
  by (simp add: get_all_aliases_def all_ops_def)

lemma set_collect_aliases:
  "set (collect_aliases ops acc) = set acc \<union> (\<Union>opr \<in> set ops. set (aliases opr))"
  by (induction ops arbitrary: acc) auto

lemma set_all_ops: "set all_ops = UNIV"
proof -
  have "opr \<in> set all_ops" for opr by (cases opr) (simp_all add: all_ops_def)
  then show ?thesis by blast
qed

lemma set_get_all_aliases: "set get_all_aliases = (\<Union>opr. set (aliases opr))"
  by (simp add: get_all_aliases_def set_collect_aliases set_all_ops)

lemma from_string_loop_Some:
  "from_string_loop ops v = Some opr \<Longrightarrow> opr \<in> set ops \<and> v \<in> VStr ` set (aliases opr)"
  by (induction ops) (auto split: if_splits)

lemma from_string_loop_None:
  "from_string_loop ops v = None \<longleftrightarrow> (\<forall>opr \<in> set ops. v \<notin> VStr ` set (aliases opr))"
  by (induction ops) auto

lemma aliases_disjoint:
  "op1 \<noteq> op2 \<Longrightarrow> set (aliases op1) \<inter> set (aliases op2) = {}"
  by (cases op1; cases op2) simp_all

lemma from_string_loop_first:
  "opr \<in> set ops \<Longrightarrow> s \<in> set (aliases opr) \<Longrightarrow> from_string_loop ops (VStr s) = Some opr"
proof (induction ops)
  case Nil
  then show ?case by simp
next
  case (Cons a ops)
  show ?case
  proof (cases "a = opr")
    case True
    with Cons.prems show ?thesis by simp
  next
    case False
    then have "s \<notin> set (aliases a)" using aliases_disjoint Cons.prems(2) by blast
    with Cons False show ?thesis by auto
  qed
qed

lemma from_string_alias:
  "s \<in> set (aliases opr) \<Longrightarrow> from_string (VStr s) = Inr opr"
  using from_string_loop_first [of opr all_ops s] by (simp add: from_string_def set_all_ops)

lemma from_string_Inr:
  "from_string v = Inr opr \<Longrightarrow> \<exists>s. v = VStr s \<and> s \<in> set (aliases opr)"
  using from_string_loop_Some [of all_ops v opr]
  by (auto simp: from_string_def split: option.splits)

lemma from_string_not_alias:
  "s \<notin> set get_all_aliases \<Longrightarrow>
   from_string (VStr s) = Inl (ValueError (UnsupportedOperator (VStr s) get_all_aliases))"
proof -
  assume "s \<notin> set get_all_aliases"
  then have "from_string_loop all_ops (VStr s) = None"
    by (auto simp: from_string_loop_None set_get_all_aliases)
  then show ?thesis by (simp add: from_string_def)
qed

lemma from_string_non_str:
  "(\<forall>s. v \<noteq> VStr s) \<Longrightarrow>
   from_string v = Inl (ValueError (UnsupportedOperator v get_all_aliases))"
proof -
  assume "\<forall>s. v \<noteq> VStr s"
  then have "from_string_loop all_ops v = None"
    by (auto simp: from_string_loop_None)
  then show ?thesis by (simp add: from_string_def)
qed

text \<open>
  C3. For every string \<open>s\<close>, \<open>Op.from_string\<close> returns the operator \<open>op\<close> exactly when
  \<open>s\<close> is one of the aliases of \<open>op\<close>; a string that is an alias of no operator fails
  with the unsupported-operator \<open>ValueError\<close>, whose message carries the complete list
  of the 23 known aliases; and the alias lists of two distinct operators are disjoint,
  so that no string resolves to two operators.
\<close>

theorem from_string_total_unambiguous:
  "(from_string (VStr s) = Inr opr \<longleftrightarrow> s \<in> set (aliases opr))
   \<and> ((\<forall>opr'. s \<notin> set (aliases opr')) \<longrightarrow>
        from_string (VStr s) = Inl (ValueError (UnsupportedOperator (VStr s)
          [''='', ''eq'', ''!='', ''ne'', ''not_eq'', ''>'', ''gt'', ''>='', ''gte'', ''ge'',
           ''<'', ''lt'', ''<='', ''lte'', ''le'', ''in'', ''IN'', ''not_in'', ''NOT_IN'',
           ''like'', ''LIKE'', ''ilike'', ''ILIKE''])))
   \<and> (op1 \<noteq> op2 \<longrightarrow> set (aliases op1) \<inter> set (aliases op2) = {})"
proof (intro conjI impI)
  show "from_string (VStr s) = Inr opr \<longleftrightarrow> s \<in> set (aliases opr)"
    using from_string_alias from_string_Inr by blast
next
  assume none: "\<forall>opr'. s \<notin> set (aliases opr')"
  then have "s \<notin> set get_all_aliases"
    by (simp add: set_get_all_aliases)
  then have "from_string (VStr s) = Inl (ValueError (UnsupportedOperator (VStr s) get_all_aliases))"
    by (rule from_string_not_alias)
  then show "from_string (VStr s) = Inl (ValueError (UnsupportedOperator (VStr s)
          [''='', ''eq'', ''!='', ''ne'', ''not_eq'', ''>'', ''gt'', ''>='', ''gte'', ''ge'',
           ''<'', ''lt'', ''<='', ''lte'', ''le'', ''in'', ''IN'', ''not_in'', ''NOT_IN'',
           ''like'', ''LIKE'', ''ilike'', ''ILIKE'']))"
    by (simp only: get_all_aliases_eq)
next
  assume "op1 \<noteq> op2"
  then show "set (aliases op1) \<inter> set (aliases op2) = {}" by (rule aliases_disjoint)
qed

theorem from_string_total_unambiguous_witness:
  "from_string (VStr ''gte'') = Inr GTE
   \<and> from_string (VStr ''=='') = Inl (ValueError (UnsupportedOperator (VStr ''=='')
          [''='', ''eq'', ''!='', ''ne'', ''not_eq'', ''>'', ''gt'', ''>='', ''gte'', ''ge'',
           ''<'', ''lt'', ''<='', ''lte'', ''le'', ''in'', ''IN'', ''not_in'', ''NOT_IN'',
           ''like'', ''LIKE'', ''ilike'', ''ILIKE'']))
   \<and> set (aliases GT) \<inter> set (aliases GTE) = {}"
proof -
  have a: "''gte'' \<in> set (aliases GTE)" by simp
  have b: "\<forall>opr'. ''=='' \<notin> set (aliases opr')"
  proof
    fix opr' show "''=='' \<notin> set (aliases opr')" by (cases opr') simp_all
  qed
  have c: "GT \<noteq> GTE" by simp
  from from_string_total_unambiguous [of "''gte''" GTE GT GTE] a
  have 1: "from_string (VStr ''gte'') = Inr GTE" by blast
  from from_string_total_unambiguous [of "''==''" GTE GT GTE] b
  have 2: "from_string (VStr ''=='') = Inl (ValueError (UnsupportedOperator (VStr ''=='')
          [''='', ''eq'', ''!='', ''ne'', ''not_eq'', ''>'', ''gt'', ''>='', ''gte'', ''ge'',
           ''<'', ''lt'', ''<='', ''lte'', ''le'', ''in'', ''IN'', ''not_in'', ''NOT_IN'',
           ''like'', ''LIKE'', ''ilike'', ''ILIKE'']))" by blast
  from from_string_total_unambiguous [of "''gte''" GTE GT GTE] c
  have 3: "set (aliases GT) \<inter> set (aliases GTE) = {}" by blast
  from 1 2 3 show ?thesis by blast
qed

section \<open>Membership operators\<close>

lemma as_list_scalar: "(\<forall>l. v \<noteq> VList l) \<Longrightarrow> as_list v = [v]"
  by (cases v) (simp_all add: as_list_def)

lemma as_list_singleton: "as_list (VList [v]) = [v]"
  by (simp add: as_list_def)

lemma build_condition_untyped_in:
  assumes "\<forall>l. v \<noteq> VList l" and "ftype f = None" and "op f = IN \<or> op f = NOT_IN"
  shows "build_condition eng lib (f\<lparr>fvalue := v\<rparr>) = build_condition eng lib (f\<lparr>fvalue := VList [v]\<rparr>)"
  using assms
  by (auto simp: build_condition_def cast_value_def bnd_def as_list_scalar as_list_singleton
           split: sum.splits)

text \<open>
  C6. For \<open>IN\<close> and \<open>NOT_IN\<close>, applying the operator to a value \<open>v\<close> that is not a
  list and to the one-element list \<open>[v]\<close> builds the same predicate, \<open>c.in_([v])\<close> (or
  its negation): the operator itself wraps the scalar. Hence a query whose condition
  carries \<open>v\<close> (with no declared type, so that the value reaches the operator as it
  is) and the query that carries \<open>[v]\<close> execute the same statements and return the
  same result, for every storage.
\<close>

theorem in_scalar_normalized:
  assumes "\<forall>l. v \<noteq> VList l"
  shows "op_apply lib IN c v = Inr (In_list c [v])
       \<and> op_apply lib IN c (VList [v]) = Inr (In_list c [v])
       \<and> op_apply lib NOT_IN c v = Inr (PNot (In_list c [v]))
       \<and> op_apply lib NOT_IN c (VList [v]) = Inr (PNot (In_list c [v]))
       \<and> (ftype f = None \<and> (op f = IN \<or> op f = NOT_IN) \<longrightarrow>
            filter_by_query eng lib st
              (fq\<lparr>groups := [\<lparr>group_op = g, group_filters = [f\<lparr>fvalue := v\<rparr>]\<rparr>]\<rparr>) calls
          = filter_by_query eng lib st
              (fq\<lparr>groups := [\<lparr>group_op = g, group_filters = [f\<lparr>fvalue := VList [v]\<rparr>]\<rparr>]\<rparr>) calls)"
proof (intro conjI impI)
  show "op_apply lib IN c v = Inr (In_list c [v])"
    using assms by (simp add: as_list_scalar)
  show "op_apply lib IN c (VList [v]) = Inr (In_list c [v])"
    by (simp add: as_list_singleton)
  show "op_apply lib NOT_IN c v = Inr (PNot (In_list c [v]))"
    using assms by (simp add: as_list_scalar)
  show "op_apply lib NOT_IN c (VList [v]) = Inr (PNot (In_list c [v]))"
    by (simp add: as_list_singleton)
next
  assume "ftype f = None \<and> (op f = IN \<or> op f = NOT_IN)"
  then have h: "build_condition eng lib (f\<lparr>fvalue := v\<rparr>)
           = build_condition eng lib (f\<lparr>fvalue := VList [v]\<rparr>)"
    using assms build_condition_untyped_in by blast
  show "filter_by_query eng lib st
              (fq\<lparr>groups := [\<lparr>group_op = g, group_filters = [f\<lparr>fvalue := v\<rparr>]\<rparr>]\<rparr>) calls
          = filter_by_query eng lib st
              (fq\<lparr>groups := [\<lparr>group_op = g, group_filters = [f\<lparr>fvalue := VList [v]\<rparr>]\<rparr>]\<rparr>) calls"
    by (simp add: filter_by_query_def h Let_def cong: if_cong sum.case_cong)
qed

theorem in_scalar_normalized_witness:
  "(\<forall>l. VInt 30 \<noteq> VList l)
   \<and> op_apply sample_lib IN ''age'' (VInt 30) = Inr (In_list ''age'' [VInt 30])
   \<and> op_apply sample_lib NOT_IN ''age'' (VList [VInt 30]) = Inr (PNot (In_list ''age'' [VInt 30]))
   \<and> filter_by_query user_engine sample_lib user_storage
        \<lparr>offset = 0, limit = 50, order_by = None, desc = False,
         groups = [\<lparr>group_op = ''and'',
                    group_filters = [\<lparr>name = ''age'', op = IN, fvalue = VInt 30, ftype = None\<rparr>]\<rparr>]\<rparr> []
     = filter_by_query user_engine sample_lib user_storage
        \<lparr>offset = 0, limit = 50, order_by = None, desc = False,
         groups = [\<lparr>group_op = ''and'',
                    group_filters = [\<lparr>name = ''age'', op = IN, fvalue = VList [VInt 30], ftype = None\<rparr>]\<rparr>]\<rparr> []"
  using in_scalar_normalized [where v = "VInt 30" and lib = sample_lib and c = "''age''"
      and f = "\<lparr>name = ''age'', op = IN, fvalue = VInt 30, ftype = None\<rparr>"
      and eng = user_engine and st = user_storage and g = "''and''" and calls = "[]"
      and fq = "\<lparr>offset = 0, limit = 50, order_by = None, desc = False, groups = []\<rparr>"]
  by simp

section \<open>The count query and the data query\<close>

lemma apply_filter_groups_shape:
  "apply_filter_groups eng lib query gs = Inr q \<Longrightarrow>
   ordering q = ordering query \<and> q_offset q = q_offset query \<and> q_limit q = q_limit query"
proof (induction gs arbitrary: query)
  case Nil
  then show ?case by simp
next
  case (Cons g gs)
  from Cons.prems obtain conditions where
    c: "build_conditions eng lib (group_filters g) [] = Inr conditions"
    and r: "apply_filter_groups eng lib
         (if conditions \<noteq> [] then
            add_where query (if group_op g = ''and'' then PAnd conditions else POr conditions)
          else query) gs = Inr q"
    by (auto simp: bnd_def split: sum.splits)
  from Cons.IH [OF r] show ?case
    by (simp add: add_where_def split: if_splits)
qed

lemma apply_sorting_wheres:
  "apply_sorting eng query ob d = Inr q \<Longrightarrow>
   wheres q = wheres query \<and> q_offset q = q_offset query \<and> q_limit q = q_limit query"
  by (auto simp: apply_sorting_def bnd_def getattr_model_def split: if_splits)

lemma filter_by_query_Inr:
  assumes "filter_by_query eng lib st fq calls = (Inr r, calls')"
  shows "\<exists>q sq. apply_filter_groups eng lib select_model (groups fq) = Inr q
           \<and> apply_sorting eng q (order_by fq) (desc fq) = Inr sq
           \<and> run_count st q = Inr (total r)
           \<and> run_rows st (apply_pagination eng sq (offset fq) (limit fq)) = Inr (items r)
           \<and> 0 \<le> total r
           \<and> calls' = calls @ [Count q, Rows (apply_pagination eng sq (offset fq) (limit fq))]"
  using assms
  by (auto simp: filter_by_query_def Let_def FilterResult_new_def split: sum.splits if_splits)

text \<open>
  C1. Let \<open>filter_by_query\<close> return for a query \<open>fq\<close> and for a query \<open>fq'\<close> with the
  same groups and any other \<open>offset\<close>, \<open>limit\<close>, \<open>order_by\<close> and \<open>desc\<close>. Then both
  calls execute the same count statement, built from the query that carries the
  predicates before any ordering or pagination is attached (it has no \<open>order_by\<close>,
  \<open>offset\<close> or \<open>limit\<close>), so the two totals are what the storage answers to that one
  statement; and the data statement of each call has exactly the predicates of the
  count statement.
\<close>

theorem total_independent_of_paging:
  assumes "groups fq' = groups fq"
    and "filter_by_query eng lib st fq calls = (Inr r, calls1)"
    and "filter_by_query eng lib st fq' calls = (Inr r', calls2)"
  shows "\<exists>q dq dq'.
           calls1 = calls @ [Count q, Rows dq] \<and> calls2 = calls @ [Count q, Rows dq']
         \<and> apply_filter_groups eng lib select_model (groups fq) = Inr q
         \<and> ordering q = [] \<and> q_offset q = None \<and> q_limit q = None
         \<and> wheres dq = wheres q \<and> wheres dq' = wheres q
         \<and> run_count st q = Inr (total r) \<and> total r' = total r"
proof -
  from filter_by_query_Inr [OF assms(2)] obtain q sq where
    q: "apply_filter_groups eng lib select_model (groups fq) = Inr q"
    and sq: "apply_sorting eng q (order_by fq) (desc fq) = Inr sq"
    and t: "run_count st q = Inr (total r)"
    and c: "calls1 = calls @ [Count q, Rows (apply_pagination eng sq (offset fq) (limit fq))]"
    by blast
  from filter_by_query_Inr [OF assms(3)] assms(1) q obtain sq' where
    sq': "apply_sorting eng q (order_by fq') (desc fq') = Inr sq'"
    and t': "run_count st q = Inr (total r')"
    and c': "calls2 = calls @ [Count q, Rows (apply_pagination eng sq' (offset fq') (limit fq'))]"
    by auto
  from apply_filter_groups_shape [OF q]
  have shape: "ordering q = [] \<and> q_offset q = None \<and> q_limit q = None"
    by (simp add: select_model_def)
  have w: "wheres (apply_pagination eng sq (offset fq) (limit fq)) = wheres q"
    using apply_sorting_wheres [OF sq] by (simp add: apply_pagination_def)
  have w': "wheres (apply_pagination eng sq' (offset fq') (limit fq')) = wheres q"
    using apply_sorting_wheres [OF sq'] by (simp add: apply_pagination_def)
  from t t' have "total r' = total r" by simp
  with q c c' shape w w' t show ?thesis by blast
qed

lemma age_query_run:
  "filter_by_query user_engine sample_lib user_storage age_query []
   = (Inr \<lparr>items = [[(''id'', VInt 3), (''name'', VStr ''c''), (''age'', VInt 40)],
                    [(''id'', VInt 2), (''name'', VStr ''b''), (''age'', VInt 30)]],
           total = 2\<rparr>,
      [Count \<lparr>wheres = [PAnd [Compare GTE ''age'' (VInt 30)]], ordering = [],
              q_offset = None, q_limit = None\<rparr>,
       Rows \<lparr>wheres = [PAnd [Compare GTE ''age'' (VInt 30)]], ordering = [(''age'', True)],
             q_offset = Some 0, q_limit = Some 50\<rparr>])"
  by code_simp

lemma age_query_run_page:
  "filter_by_query user_engine sample_lib user_storage
     (age_query\<lparr>offset := 1, limit := 1, order_by := None\<rparr>) []
   = (Inr \<lparr>items = [[(''id'', VInt 3), (''name'', VStr ''c''), (''age'', VInt 40)]],
           total = 2\<rparr>,
      [Count \<lparr>wheres = [PAnd [Compare GTE ''age'' (VInt 30)]], ordering = [],
              q_offset = None, q_limit = None\<rparr>,
       Rows \<lparr>wheres = [PAnd [Compare GTE ''age'' (VInt 30)]], ordering = [],
             q_offset = Some 1, q_limit = Some 1\<rparr>])"
  by code_simp

theorem total_independent_of_paging_witness:
  "groups (age_query\<lparr>offset := 1, limit := 1, order_by := None\<rparr>) = groups age_query
   \<and> fst (filter_by_query user_engine sample_lib user_storage age_query [])
       = Inr \<lparr>items = [[(''id'', VInt 3), (''name'', VStr ''c''), (''age'', VInt 40)],
                        [(''id'', VInt 2), (''name'', VStr ''b''), (''age'', VInt 30)]],
               total = 2\<rparr>
   \<and> fst (filter_by_query user_engine sample_lib user_storage
            (age_query\<lparr>offset := 1, limit := 1, order_by := None\<rparr>) [])
       = Inr \<lparr>items = [[(''id'', VInt 3), (''name'', VStr ''c''), (''age'', VInt 40)]],
               total = 2\<rparr>
   \<and> run_count user_storage
         \<lparr>wheres = [PAnd [Compare GTE ''age'' (VInt 30)]], ordering = [],
          q_offset = None, q_limit = None\<rparr> = Inr 2"
proof -
  have g: "groups (age_query\<lparr>offset := 1, limit := 1, order_by := None\<rparr>) = groups age_query"
    by simp
  from total_independent_of_paging [OF g age_query_run age_query_run_page]
  have "run_count user_storage
         \<lparr>wheres = [PAnd [Compare GTE ''age'' (VInt 30)]], ordering = [],
          q_offset = None, q_limit = None\<rparr> = Inr 2"
    by auto
  with g age_query_run age_query_run_page show ?thesis by simp
qed

section \<open>Pagination\<close>

lemma table_rows_limit:
  "q_limit q = Some n \<Longrightarrow> length (table_rows holds sorter rows q) \<le> nat n"
  by (simp add: table_rows_def Let_def)

lemma table_rows_unpaged:
  "ordering q = [] \<Longrightarrow> q_offset q = None \<Longrightarrow> q_limit q = None \<Longrightarrow>
   table_rows holds sorter rows q = filter (\<lambda>x. list_all (\<lambda>p. holds p x) (wheres q)) rows"
  by (simp add: table_rows_def Let_def)

text \<open>
  C7. \<open>_apply_pagination\<close> sets the limit of the query to \<open>min(limit, max_limit)\<close> and
  its offset to the requested offset. When \<open>filter_by_query\<close> returns, the data
  statement it executed carries that offset and that clamped limit, the count
  statement carries neither, and \<open>total\<close> is the answer to the count statement. On the
  reference storage the page has at most \<open>max_limit\<close> rows and \<open>total\<close> is the number
  of all rows that satisfy the predicates.
\<close>

theorem pagination_clamped:
  assumes "filter_by_query eng lib st fq calls = (Inr r, calls')"
  shows "q_limit (apply_pagination eng query off lim) = Some (min lim (max_limit (config eng)))
       \<and> q_offset (apply_pagination eng query off lim) = Some off
       \<and> (\<exists>q dq. calls' = calls @ [Count q, Rows dq]
             \<and> q_offset dq = Some (offset fq)
             \<and> q_limit dq = Some (min (limit fq) (max_limit (config eng)))
             \<and> q_offset q = None \<and> q_limit q = None \<and> wheres dq = wheres q
             \<and> run_count st q = Inr (total r) \<and> run_rows st dq = Inr (items r)
             \<and> (st = table_storage holds sorter rows \<longrightarrow>
                  int (length (items r)) \<le> max_limit (config eng)
                  \<and> total r = int (length (filter (\<lambda>x. list_all (\<lambda>p. holds p x) (wheres q)) rows))))"
proof (intro conjI)
  show "q_limit (apply_pagination eng query off lim) = Some (min lim (max_limit (config eng)))"
    by (simp add: apply_pagination_def)
  show "q_offset (apply_pagination eng query off lim) = Some off"
    by (simp add: apply_pagination_def)
next
  from filter_by_query_Inr [OF assms] obtain q sq where
    q: "apply_filter_groups eng lib select_model (groups fq) = Inr q"
    and sq: "apply_sorting eng q (order_by fq) (desc fq) = Inr sq"
    and t: "run_count st q = Inr (total r)"
    and i: "run_rows st (apply_pagination eng sq (offset fq) (limit fq)) = Inr (items r)"
    and c: "calls' = calls @ [Count q, Rows (apply_pagination eng sq (offset fq) (limit fq))]"
    by blast
  let ?dq = "apply_pagination eng sq (offset fq) (limit fq)"
  from apply_filter_groups_shape [OF q]
  have shape: "ordering q = []" "q_offset q = None" "q_limit q = None"
    by (simp_all add: select_model_def)
  have w: "wheres ?dq = wheres q"
    using apply_sorting_wheres [OF sq] by (simp add: apply_pagination_def)
  have l: "q_limit ?dq = Some (min (limit fq) (max_limit (config eng)))"
    and o: "q_offset ?dq = Some (offset fq)"
    by (simp_all add: apply_pagination_def)
  have tab: "int (length (items r)) \<le> max_limit (config eng)
           \<and> total r = int (length (filter (\<lambda>x. list_all (\<lambda>p. holds p x) (wheres q)) rows))"
    if st: "st = table_storage holds sorter rows"
  proof
    from i st have vb: "valid_bounds ?dq"
      and its: "items r = table_rows holds sorter rows ?dq"
      by (auto simp: table_storage_def split: if_splits)
    from vb l have nonneg: "0 \<le> min (limit fq) (max_limit (config eng))"
      by (simp add: valid_bounds_def)
    from table_rows_limit [OF l] its
    have "length (items r) \<le> nat (min (limit fq) (max_limit (config eng)))" by simp
    with nonneg show "int (length (items r)) \<le> max_limit (config eng)" by linarith
    from t st shape show "total r = int (length (filter (\<lambda>x. list_all (\<lambda>p. holds p x) (wheres q)) rows))"
      by (auto simp: table_storage_def table_rows_unpaged split: if_splits)
  qed
  from c o l shape w t i tab
  show "\<exists>q dq. calls' = calls @ [Count q, Rows dq]
             \<and> q_offset dq = Some (offset fq)
             \<and> q_limit dq = Some (min (limit fq) (max_limit (config eng)))
             \<and> q_offset q = None \<and> q_limit q = None \<and> wheres dq = wheres q
             \<and> run_count st q = Inr (total r) \<and> run_rows st dq = Inr (items r)
             \<and> (st = table_storage holds sorter rows \<longrightarrow>
                  int (length (items r)) \<le> max_limit (config eng)
                  \<and> total r = int (length (filter (\<lambda>x. list_all (\<lambda>p. holds p x) (wheres q)) rows)))"
    by blast
qed

lemma small_page_run:
  "filter_by_query (user_engine\<lparr>config := FilterConfig_init None 50 1 None\<rparr>) sample_lib
     user_storage (age_query\<lparr>limit := 5000\<rparr>) []
   = (Inr \<lparr>items = [[(''id'', VInt 3), (''name'', VStr ''c''), (''age'', VInt 40)]],
           total = 2\<rparr>,
      [Count \<lparr>wheres = [PAnd [Compare GTE ''age'' (VInt 30)]], ordering = [],
              q_offset = None, q_limit = None\<rparr>,
       Rows \<lparr>wheres = [PAnd [Compare GTE ''age'' (VInt 30)]], ordering = [(''age'', True)],
             q_offset = Some 0, q_limit = Some 1\<rparr>])"
  by code_simp

theorem pagination_clamped_witness:
  "filter_by_query (user_engine\<lparr>config := FilterConfig_init None 50 1 None\<rparr>) sample_lib
     user_storage (age_query\<lparr>limit := 5000\<rparr>) []
   = (Inr \<lparr>items = [[(''id'', VInt 3), (''name'', VStr ''c''), (''age'', VInt 40)]],
           total = 2\<rparr>,
      [Count \<lparr>wheres = [PAnd [Compare GTE ''age'' (VInt 30)]], ordering = [],
              q_offset = None, q_limit = None\<rparr>,
       Rows \<lparr>wheres = [PAnd [Compare GTE ''age'' (VInt 30)]], ordering = [(''age'', True)],
             q_offset = Some 0, q_limit = Some 1\<rparr>])
   \<and> q_limit (apply_pagination (user_engine\<lparr>config := FilterConfig_init None 50 1 None\<rparr>)
               select_model 0 5000)
       = Some (min 5000 (max_limit (config (user_engine\<lparr>config := FilterConfig_init None 50 1 None\<rparr>))))
   \<and> int (length (items \<lparr>items = [[(''id'', VInt 3), (''name'', VStr ''c''), (''age'', VInt 40)]],
                           total = 2\<rparr>))
       \<le> max_limit (config (user_engine\<lparr>config := FilterConfig_init None 50 1 None\<rparr>))
   \<and> max_limit (config (user_engine\<lparr>config := FilterConfig_init None 50 1 None\<rparr>)) = 1"
proof -
  let ?eng = "user_engine\<lparr>config := FilterConfig_init None 50 1 None\<rparr>"
  let ?r = "\<lparr>items = [[(''id'', VInt 3), (''name'', VStr ''c''), (''age'', VInt 40)]],
            total = 2\<rparr>"
  have m: "max_limit (config ?eng) = 1" by (simp add: FilterConfig_init_def)
  have us: "user_storage = table_storage sample_holds sample_sorter users"
    by (simp add: user_storage_def)
  from pagination_clamped [OF small_page_run, where query = select_model and off = 0
      and lim = 5000 and holds = sample_holds and sorter = sample_sorter and rows = users]
  have l: "q_limit (apply_pagination ?eng select_model 0 5000)
         = Some (min 5000 (max_limit (config ?eng)))"
    and "user_storage = table_storage sample_holds sample_sorter users \<longrightarrow>
            int (length (items ?r)) \<le> max_limit (config ?eng)"
    by blast+
  with us have "int (length (items ?r)) \<le> max_limit (config ?eng)" by blast
  with l m small_page_run show ?thesis by blast
qed

section \<open>Normalization of list-shaped filters\<close>

lemma validate_items_None:
  "validate_items i j its = None \<longleftrightarrow> list_all item_shape_ok its"
  by (induction its arbitrary: j)
     (auto simp: item_shape_ok_def split: pyval.splits)

lemma validate_items_Some:
  "validate_items i j its = Some m \<Longrightarrow> \<not> list_all item_shape_ok its"
  using validate_items_None [of i j its] by simp

lemma validate_filter_groups_None:
  "validate_filter_groups i gs = None \<longleftrightarrow> list_all group_shape_ok gs"
  by (induction gs arbitrary: i)
     (auto simp: group_shape_ok_def validate_items_None has_key_def
           dest: validate_items_Some split: pyval.splits option.splits)

text \<open>
  C5. For a \<open>FilterParams\<close> whose \<open>filters\<close> is a list, the validator succeeds exactly
  when every element is an object with the key \<open>operator\<close> and with a non-empty list
  \<open>items\<close> whose elements are objects with the keys \<open>name\<close> and \<open>value\<close>; and after
  a success the list has been appended as a whole to \<open>advanced_filters\<close> (taken as
  empty when it was \<open>None\<close>), \<open>filters\<close> is the empty mapping, and nothing else has
  changed.
\<close>

theorem normalize_list_filters:
  assumes "filters p = FList gs"
  shows "((\<exists>p'. normalize_and_validate_filters p = Inr p') \<longleftrightarrow> list_all group_shape_ok gs)
       \<and> (normalize_and_validate_filters p = Inr p' \<longrightarrow>
            advanced_filters p' =
              Some ((case advanced_filters p of None \<Rightarrow> [] | Some a \<Rightarrow> a) @ gs)
            \<and> filters p' = FDict []
            \<and> p' = p\<lparr>advanced_filters := advanced_filters p', filters := FDict []\<rparr>)"
proof (intro conjI impI)
  show "(\<exists>p'. normalize_and_validate_filters p = Inr p') \<longleftrightarrow> list_all group_shape_ok gs"
    using assms validate_filter_groups_None [of 0 gs]
    by (auto simp: normalize_and_validate_filters_def Let_def split: option.splits)
next
  assume ok: "normalize_and_validate_filters p = Inr p'"
  have adv: "(if \<not> truthy_list (advanced_filters p) then [] else the (advanced_filters p))
           = (case advanced_filters p of None \<Rightarrow> [] | Some a \<Rightarrow> a)"
    by (cases "advanced_filters p") (auto simp: truthy_list_def)
  from ok assms adv
  have p': "p' = p\<lparr>advanced_filters :=
                    Some ((case advanced_filters p of None \<Rightarrow> [] | Some a \<Rightarrow> a) @ gs),
                  filters := FDict []\<rparr>"
    by (auto simp: normalize_and_validate_filters_def Let_def split: option.splits)
  then show "advanced_filters p' =
              Some ((case advanced_filters p of None \<Rightarrow> [] | Some a \<Rightarrow> a) @ gs)"
    by simp
  from p' show "filters p' = FDict []" by simp
  from p' show "p' = p\<lparr>advanced_filters := advanced_filters p', filters := FDict []\<rparr>" by simp
qed

theorem normalize_list_filters_witness:
  "normalize_and_validate_filters
     \<lparr>p_offset = 0, p_limit = 50, p_order_by = None, asc = 1,
      filters = FList [age_group], advanced_filters = Some [name_group]\<rparr>
   = Inr \<lparr>p_offset = 0, p_limit = 50, p_order_by = None, asc = 1,
          filters = FDict [], advanced_filters = Some [name_group, age_group]\<rparr>
   \<and> list_all group_shape_ok [age_group]
   \<and> Some [name_group, age_group] = Some ([name_group] @ [age_group])"
proof -
  let ?p = "\<lparr>p_offset = 0, p_limit = 50, p_order_by = None, asc = 1,
      filters = FList [age_group], advanced_filters = Some [name_group]\<rparr>"
  let ?p' = "\<lparr>p_offset = 0, p_limit = 50, p_order_by = None, asc = 1,
          filters = FDict [], advanced_filters = Some [name_group, age_group]\<rparr>"
  have run: "normalize_and_validate_filters ?p = Inr ?p'"
    by code_simp
  have f: "filters ?p = FList [age_group]" by simp
  from normalize_list_filters [OF f, where p' = ?p'] run
  have "list_all group_shape_ok [age_group]"
    and "advanced_filters ?p' =
           Some ((case advanced_filters ?p of None \<Rightarrow> [] | Some a \<Rightarrow> a) @ [age_group])"
    by blast+
  with run show ?thesis by simp
qed

section \<open>Construction of a condition\<close>

lemma replace_empty: "replace c [] s = filter (\<lambda>x. x \<noteq> c) s"
  by (induction s) (simp_all add: replace_def)

lemma name_chars_ok_iff:
  "name_chars_ok s \<longleftrightarrow> list_all name_char s \<and> list_ex isalnum_char s"
proof -
  have a: "\<not> isalnum_char CHR ''_''" "\<not> isalnum_char CHR ''-''"
    by (simp_all add: isalnum_char_def)
  have "list_all isalnum_char (filter (\<lambda>x. x \<noteq> CHR ''-'') (filter (\<lambda>x. x \<noteq> CHR ''_'') s))
        \<longleftrightarrow> list_all name_char s"
    by (induction s) (auto simp: name_char_def)
  moreover have "filter (\<lambda>x. x \<noteq> CHR ''-'') (filter (\<lambda>x. x \<noteq> CHR ''_'') s) \<noteq> []
        \<longleftrightarrow> list_ex (\<lambda>c. c \<noteq> CHR ''_'' \<and> c \<noteq> CHR ''-'') s"
    by (induction s) auto
  moreover have "list_all name_char s \<Longrightarrow>
      list_ex (\<lambda>c. c \<noteq> CHR ''_'' \<and> c \<noteq> CHR ''-'') s \<longleftrightarrow> list_ex isalnum_char s"
    using a by (induction s) (auto simp: name_char_def)
  ultimately show ?thesis
    by (auto simp: name_chars_ok_def isalnum_def replace_empty)
qed

lemma name_char_not_space: "name_char c \<Longrightarrow> \<not> isspace_char c"
  by (auto simp: name_char_def isalnum_char_def isspace_char_def Let_def)

lemma dropWhile_none: "list_all (\<lambda>c. \<not> P c) s \<Longrightarrow> dropWhile P s = s"
  by (cases s) simp_all

lemma strip_name: "list_all name_char s \<Longrightarrow> strip s = s"
proof -
  assume a: "list_all name_char s"
  then have n: "list_all (\<lambda>c. \<not> isspace_char c) s"
    by (induction s) (auto dest: name_char_not_space)
  then have "list_all (\<lambda>c. \<not> isspace_char c) (rev s)"
    by (simp add: list_all_iff)
  with n show ?thesis by (simp add: strip_def dropWhile_none)
qed

lemma ascii_name_char: "is_ascii c \<Longrightarrow> name_char c \<Longrightarrow> ident_char c"
  by (auto simp: is_ascii_def name_char_def isalnum_char_def ident_char_def Let_def)

lemma ascii_name_ident:
  "list_all is_ascii s \<Longrightarrow> list_all name_char s \<Longrightarrow> list_all ident_char s"
  by (induction s) (auto dest: ascii_name_char)

lemma validate_name_Inr:
  "validate_name s = Inr n \<Longrightarrow> n = s \<and> s \<noteq> [] \<and> list_all name_char s \<and> list_ex isalnum_char s"
  by (auto simp: validate_name_def name_chars_ok_iff strip_name split: if_splits)

lemma check_name_Inr:
  "check_name a = Inr n \<Longrightarrow>
   a = Some (VStr n) \<and> n \<noteq> [] \<and> list_all name_char n \<and> list_ex isalnum_char n"
  by (auto simp: check_name_def split: option.splits pyval.splits if_splits
           dest: validate_name_Inr)

lemma check_value_Inr: "check_value a = Inr v \<Longrightarrow> a = Some v \<and> v \<noteq> VNone"
  by (auto simp: check_value_def validate_value_def split: option.splits if_splits)

lemma Filter_new_Inr:
  "Filter_new a = Inr f \<Longrightarrow>
   check_name (a_name a) = Inr (name f) \<and> check_op (a_op a) = Inr (op f)
   \<and> check_value (a_value a) = Inr (fvalue f) \<and> check_type (a_type a) = Inr (ftype f)"
  by (auto simp: Filter_new_def split: sum.splits)

lemma op_errs_mem: "check_op a = Inl m \<Longrightarrow> m \<in> set (op_errs a)"
  by (auto simp: op_errs_def errs_def check_op_def validate_op_def
           split: option.splits op_arg.splits pyval.splits sum.splits exn.splits)

lemma Filter_new_Inl:
  "check_name (a_name a) = Inl m \<or> check_op (a_op a) = Inl m
   \<or> check_value (a_value a) = Inl m \<or> check_type (a_type a) = Inl m \<Longrightarrow>
   \<exists>ms. Filter_new a = Inl (ValidationError ms) \<and> m \<in> set ms"
  by (auto simp: Filter_new_def errs_def op_errs_mem split: sum.splits)

lemma check_name_bad:
  "s = [] \<or> strip s = [] \<or> \<not> list_all name_char s \<Longrightarrow>
   check_name (Some (VStr s)) = Inl TooShort \<or> check_name (Some (VStr s)) = Inl EmptyFieldName
   \<or> check_name (Some (VStr s)) = Inl (BadFieldChars s)"
  by (auto simp: check_name_def validate_name_def name_chars_ok_iff)

text \<open>
  C9, as amended. Constructing a \<open>Filter\<close> succeeds only when the name is a non-empty
  string without surrounding whitespace in which every character is alphanumeric in
  the sense of \<open>str.isalnum\<close>, \<open>_\<close> or \<open>-\<close>, and at least one is alphanumeric (for a
  name of ASCII characters this is the charset \<open>[A-Za-z0-9_-]+\<close>), and the value is
  present and not \<open>None\<close>; the name and the value are stored as given. A \<open>None\<close> value
  is rejected with a \<open>ValidationError\<close> that carries the message of the value
  validator, and a name that is empty, blank or has a character outside that set is
  rejected with a \<open>ValidationError\<close> that carries the message of the violated rule.
\<close>

theorem filter_construction:
  "(Filter_new a = Inr f \<longrightarrow>
      (\<exists>s v. a_name a = Some (VStr s) \<and> strip s = s \<and> s \<noteq> [] \<and> list_all name_char s
            \<and> list_ex isalnum_char s \<and> (list_all is_ascii s \<longrightarrow> ident_charset (strip s))
            \<and> name f = s \<and> a_value a = Some v \<and> v \<noteq> VNone \<and> fvalue f = v))
   \<and> (a_value a = Some VNone \<longrightarrow>
        (\<exists>ms. Filter_new a = Inl (ValidationError ms) \<and> NoneValue \<in> set ms))
   \<and> (a_name a = Some (VStr n) \<and> (n = [] \<or> strip n = [] \<or> \<not> list_all name_char n) \<longrightarrow>
        (\<exists>ms. Filter_new a = Inl (ValidationError ms)
            \<and> (TooShort \<in> set ms \<or> EmptyFieldName \<in> set ms \<or> BadFieldChars n \<in> set ms)))"
proof (intro conjI impI)
  assume ok: "Filter_new a = Inr f"
  from Filter_new_Inr [OF ok] have
    n: "check_name (a_name a) = Inr (name f)" and v: "check_value (a_value a) = Inr (fvalue f)"
    by simp_all
  from check_name_Inr [OF n] have
    1: "a_name a = Some (VStr (name f))" "name f \<noteq> []" "list_all name_char (name f)"
       "list_ex isalnum_char (name f)"
    by simp_all
  from check_value_Inr [OF v] have 2: "a_value a = Some (fvalue f)" "fvalue f \<noteq> VNone"
    by simp_all
  have 3: "strip (name f) = name f" using 1(3) by (rule strip_name)
  have 4: "list_all is_ascii (name f) \<longrightarrow> ident_charset (strip (name f))"
    using 1(2,3) 3 ascii_name_ident by (auto simp: ident_charset_def)
  from 1 2 3 4
  show "\<exists>s v. a_name a = Some (VStr s) \<and> strip s = s \<and> s \<noteq> [] \<and> list_all name_char s
            \<and> list_ex isalnum_char s \<and> (list_all is_ascii s \<longrightarrow> ident_charset (strip s))
            \<and> name f = s \<and> a_value a = Some v \<and> v \<noteq> VNone \<and> fvalue f = v"
    by blast
next
  assume "a_value a = Some VNone"
  then have "check_value (a_value a) = Inl NoneValue"
    by (simp add: check_value_def validate_value_def)
  then show "\<exists>ms. Filter_new a = Inl (ValidationError ms) \<and> NoneValue \<in> set ms"
    using Filter_new_Inl [of a NoneValue] by blast
next
  assume h: "a_name a = Some (VStr n) \<and> (n = [] \<or> strip n = [] \<or> \<not> list_all name_char n)"
  then have "check_name (a_name a) = Inl TooShort \<or> check_name (a_name a) = Inl EmptyFieldName
   \<or> check_name (a_name a) = Inl (BadFieldChars n)"
    using check_name_bad [of n] by simp
  then show "\<exists>ms. Filter_new a = Inl (ValidationError ms)
            \<and> (TooShort \<in> set ms \<or> EmptyFieldName \<in> set ms \<or> BadFieldChars n \<in> set ms)"
    using Filter_new_Inl [of a TooShort] Filter_new_Inl [of a EmptyFieldName]
      Filter_new_Inl [of a "BadFieldChars n"] by blast
qed

lemma age_filter_new:
  "Filter_new \<lparr>a_name = Some (VStr ''age''), a_op = Some (OpRaw (VStr ''>='')),
               a_value = Some (VInt 30), a_type = None\<rparr>
   = Inr \<lparr>name = ''age'', op = GTE, fvalue = VInt 30, ftype = None\<rparr>"
  by code_simp

theorem filter_construction_witness:
  "Filter_new \<lparr>a_name = Some (VStr ''age''), a_op = Some (OpRaw (VStr ''>='')),
               a_value = Some (VInt 30), a_type = None\<rparr>
   = Inr \<lparr>name = ''age'', op = GTE, fvalue = VInt 30, ftype = None\<rparr>
   \<and> ident_charset (strip ''age'')
   \<and> (\<exists>ms. Filter_new \<lparr>a_name = Some (VStr ''age''), a_op = None, a_value = Some VNone,
                         a_type = None\<rparr> = Inl (ValidationError ms) \<and> NoneValue \<in> set ms)
   \<and> (\<exists>ms. Filter_new \<lparr>a_name = Some (VStr ''a b''), a_op = None, a_value = Some (VInt 1),
                         a_type = None\<rparr> = Inl (ValidationError ms)
         \<and> (TooShort \<in> set ms \<or> EmptyFieldName \<in> set ms \<or> BadFieldChars ''a b'' \<in> set ms))"
proof -
  have asc: "list_all is_ascii ''age''" by (simp add: is_ascii_def)
  from filter_construction [where a = "\<lparr>a_name = Some (VStr ''age''),
       a_op = Some (OpRaw (VStr ''>='')), a_value = Some (VInt 30), a_type = None\<rparr>"
       and f = "\<lparr>name = ''age'', op = GTE, fvalue = VInt 30, ftype = None\<rparr>" and n = "[]"]
    age_filter_new
  obtain s where s: "name \<lparr>name = ''age'', op = GTE, fvalue = VInt 30, ftype = None\<rparr> = s"
    and i: "list_all is_ascii s \<longrightarrow> ident_charset (strip s)"
    by blast
  from s have "s = ''age''" by simp
  with i asc have 1: "ident_charset (strip ''age'')" by blast
  from filter_construction [where a = "\<lparr>a_name = Some (VStr ''age''), a_op = None,
       a_value = Some VNone, a_type = None\<rparr>"]
  have 2: "\<exists>ms. Filter_new \<lparr>a_name = Some (VStr ''age''), a_op = None, a_value = Some VNone,
                         a_type = None\<rparr> = Inl (ValidationError ms) \<and> NoneValue \<in> set ms"
    by simp
  have sp: "\<not> list_all name_char ''a b''"
    by (simp add: name_char_def isalnum_char_def)
  from filter_construction [where a = "\<lparr>a_name = Some (VStr ''a b''), a_op = None,
       a_value = Some (VInt 1), a_type = None\<rparr>" and n = "''a b''"] sp
  have 3: "\<exists>ms. Filter_new \<lparr>a_name = Some (VStr ''a b''), a_op = None, a_value = Some (VInt 1),
                         a_type = None\<rparr> = Inl (ValidationError ms)
         \<and> (TooShort \<in> set ms \<or> EmptyFieldName \<in> set ms \<or> BadFieldChars ''a b'' \<in> set ms)"
    by simp
  from age_filter_new 1 2 3 show ?thesis by blast
qed

text \<open>
  The claim as stated fails at the name \<open>e\<close> with an acute accent (code point 233):
  it is alphanumeric for \<open>str.isalnum\<close>, so the condition is constructed, and it is
  outside \<open>[A-Za-z0-9_-]\<close>.
\<close>

theorem filter_construction_counterexample:
  "Filter_new \<lparr>a_name = Some (VStr [CHR 0xE9]), a_op = None, a_value = Some (VInt 1),
               a_type = None\<rparr>
   = Inr \<lparr>name = [CHR 0xE9], op = EQ, fvalue = VInt 1, ftype = None\<rparr>
   \<and> \<not> ident_charset (strip [CHR 0xE9])"
  by code_simp

section \<open>Value coercion\<close>



lemma cast_value_guard: "cast_value lib VNone t = Inr VNone" "cast_value lib v None = Inr v"
  by (simp_all add: cast_value_def)

lemma cast_value_uncaught:
  "v \<noteq> VNone \<Longrightarrow> t \<noteq> [] \<Longrightarrow> converters lib t v = Inl e \<Longrightarrow> \<not> caught e \<Longrightarrow>
   cast_value lib v (Some t) = Inl e"
  by (simp add: cast_value_def)





section \<open>Empty input\<close>

lemma apply_sorting_select_model:
  "apply_sorting eng select_model None False = Inr sq \<Longrightarrow>
   wheres sq = [] \<and> q_offset sq = None \<and> q_limit sq = None"
  using apply_sorting_wheres [of eng select_model None False sq]
  by (simp add: select_model_def)

lemma filter_by_query_plain:
  assumes "groups fq = []"
    and "apply_sorting eng select_model (order_by fq) (desc fq) = Inr sq"
    and "run_count st select_model = Inr t" and "0 \<le> t"
    and "run_rows st (apply_pagination eng sq (offset fq) (limit fq)) = Inr its"
  shows "filter_by_query eng lib st fq calls
       = (Inr \<lparr>items = its, total = t\<rparr>,
          calls @ [Count select_model, Rows (apply_pagination eng sq (offset fq) (limit fq))])"
  using assms by (simp add: filter_by_query_def Let_def FilterResult_new_def)

lemma paginate_first_page:
  assumes "apply_sorting eng select_model None False = Inr sq"
    and "run_count st select_model = Inr t" and "0 \<le> t"
    and "run_rows st (apply_pagination eng sq 0 50) = Inr its"
  shows "paginate eng lib st 1 (Some 50) None False calls
       = (Inr \<lparr>items = its, total = t\<rparr>,
          calls @ [Count select_model, Rows (apply_pagination eng sq 0 50)])"
proof -
  have fq: "FilterQuery_new 0 50 None False []
          = Inr \<lparr>offset = 0, limit = 50, order_by = None, desc = False, groups = []\<rparr>"
    by (simp add: FilterQuery_new_def validate_order_by_def)
  show ?thesis
    using assms
      filter_by_query_plain [where fq = "\<lparr>offset = 0, limit = 50, order_by = None,
        desc = False, groups = []\<rparr>" and eng = eng and sq = sq and st = st and t = t
        and its = its and lib = lib and calls = calls]
    by (simp add: paginate_def fq)
qed

lemma filter_by_params_default:
  assumes "apply_sorting eng select_model None False = Inr sq"
    and "run_count st select_model = Inr t" and "0 \<le> t"
    and "run_rows st (apply_pagination eng sq 0 50) = Inr its"
  shows "filter_by_params eng lib st FilterParams_default calls
       = (Inr \<lparr>items = its, total = t\<rparr>,
          calls @ [Count select_model, Rows (apply_pagination eng sq 0 50)])"
  using assms
  by (simp add: filter_by_params_def FilterParams_default_def params_simple_def
      params_advanced_def truthy_filters_def truthy_list_def bnd_def is_desc_def Let_def
      FilterResult_new_def)

lemma table_count_all:
  "run_count (table_storage holds sorter rows) select_model = Inr (int (length rows))"
  by (simp add: table_storage_def valid_bounds_def select_model_def table_rows_def)

text \<open>
  C4, as amended. An empty input to the JSON entry point is valid: when the default
  ordering resolves and the storage answers, the service returns a result, not an
  error. It executes the count of the unfiltered query and one data statement with no
  predicates, \<open>offset=0\<close> and \<open>limit=min(50, max_limit)\<close>, where 50 is the page size
  the service passes; with the engine the service builds itself this limit is
  \<open>default_limit\<close> and the query is unordered. \<open>total\<close> is the answer to the count of
  the unfiltered query, which on the reference storage is the number of all rows.
  \<open>filter_by_params\<close> on the default \<open>FilterParams()\<close> does the same.
\<close>

theorem empty_json_first_page:
  assumes "eng = get_engine flds attrs e"
    and "apply_sorting eng select_model None False = Inr sq"
    and "run_count st select_model = Inr t" and "0 \<le> t"
    and "run_rows st (apply_pagination eng sq 0 50) = Inr its"
  shows "filter_with_json flds attrs lib ps st [] e calls
         = (Inr \<lparr>items = its, total = t\<rparr>,
            calls @ [Count select_model, Rows (apply_pagination eng sq 0 50)])
       \<and> filter_by_params eng lib st FilterParams_default calls
         = (Inr \<lparr>items = its, total = t\<rparr>,
            calls @ [Count select_model, Rows (apply_pagination eng sq 0 50)])
       \<and> wheres (apply_pagination eng sq 0 50) = []
       \<and> q_offset (apply_pagination eng sq 0 50) = Some 0
       \<and> q_limit (apply_pagination eng sq 0 50) = Some (min 50 (max_limit (config eng)))
       \<and> (e = None \<longrightarrow> q_limit (apply_pagination eng sq 0 50) = Some (default_limit (config eng))
                       \<and> ordering (apply_pagination eng sq 0 50) = [])
       \<and> (st = table_storage holds sorter rows \<longrightarrow> t = int (length rows))"
proof (intro conjI impI)
  show "filter_with_json flds attrs lib ps st [] e calls
         = (Inr \<lparr>items = its, total = t\<rparr>,
            calls @ [Count select_model, Rows (apply_pagination eng sq 0 50)])"
    using paginate_first_page [OF assms(2-5), of lib calls] assms(1)
    by (simp add: filter_with_json_def service_result_def Let_def)
  show "filter_by_params eng lib st FilterParams_default calls
         = (Inr \<lparr>items = its, total = t\<rparr>,
            calls @ [Count select_model, Rows (apply_pagination eng sq 0 50)])"
    using assms(2-5) by (rule filter_by_params_default)
  show "wheres (apply_pagination eng sq 0 50) = []"
    using apply_sorting_select_model [OF assms(2)] by (simp add: apply_pagination_def)
  show "q_offset (apply_pagination eng sq 0 50) = Some 0"
    by (simp add: apply_pagination_def)
  show "q_limit (apply_pagination eng sq 0 50) = Some (min 50 (max_limit (config eng)))"
    by (simp add: apply_pagination_def)
next
  assume n: "e = None"
  with assms(1) have cfg: "config eng = FilterConfig_default"
    by (simp add: get_engine_def AsyncQueryFilterEngine_init_def)
  then show "q_limit (apply_pagination eng sq 0 50) = Some (default_limit (config eng))"
    by (simp add: apply_pagination_def FilterConfig_default_def FilterConfig_init_def)
  from cfg assms(2) have "sq = select_model"
    by (simp add: apply_sorting_def truthy_str_def FilterConfig_default_def
        FilterConfig_init_def)
  then show "ordering (apply_pagination eng sq 0 50) = []"
    by (simp add: apply_pagination_def select_model_def)
next
  assume "st = table_storage holds sorter rows"
  with assms(3) show "t = int (length rows)" by (simp add: table_count_all)
qed

lemma empty_json_run:
  "filter_with_json [''id'', ''name'', ''age''] [''id'', ''name'', ''age''] sample_lib
     sample_parsers user_storage [] None []
   = (Inr \<lparr>items = users, total = 3\<rparr>,
      [Count select_model,
       Rows \<lparr>wheres = [], ordering = [], q_offset = Some 0, q_limit = Some 50\<rparr>])"
  by code_simp

theorem empty_json_first_page_witness:
  "filter_with_json [''id'', ''name'', ''age''] [''id'', ''name'', ''age''] sample_lib
     sample_parsers user_storage [] None []
   = (Inr \<lparr>items = users, total = 3\<rparr>,
      [Count select_model,
       Rows \<lparr>wheres = [], ordering = [], q_offset = Some 0, q_limit = Some 50\<rparr>])
   \<and> default_limit (config user_engine) = 50 \<and> int (length users) = 3"
proof -
  have e: "user_engine = get_engine [''id'', ''name'', ''age''] [''id'', ''name'', ''age''] None"
    by (simp add: user_engine_def get_engine_def)
  have s: "apply_sorting user_engine select_model None False = Inr select_model"
    by code_simp
  have c: "run_count user_storage select_model = Inr 3" by code_simp
  have p: "apply_pagination user_engine select_model 0 50
         = \<lparr>wheres = [], ordering = [], q_offset = Some 0, q_limit = Some 50\<rparr>"
    by code_simp
  have r: "run_rows user_storage (apply_pagination user_engine select_model 0 50) = Inr users"
    by code_simp
  have z: "(0::int) \<le> 3" by simp
  have us: "user_storage = table_storage sample_holds sample_sorter users"
    by (simp add: user_storage_def)
  from empty_json_first_page [OF e s c z r, where lib = sample_lib and ps = sample_parsers
      and calls = "[]" and holds = sample_holds and sorter = sample_sorter and rows = users]
  have "filter_with_json [''id'', ''name'', ''age''] [''id'', ''name'', ''age''] sample_lib
     sample_parsers user_storage [] None []
   = (Inr \<lparr>items = users, total = 3\<rparr>,
      [] @ [Count select_model, Rows (apply_pagination user_engine select_model 0 50)])
   \<and> q_limit (apply_pagination user_engine select_model 0 50)
       = Some (default_limit (config user_engine))
   \<and> 3 = int (length users)"
    using us by blast
  moreover have "default_limit (config user_engine) = 50" by code_simp
  ultimately show ?thesis by (simp add: p)
qed

text \<open>
  The claim as stated fails for an engine configured with \<open>default_limit=20\<close>: on the
  empty input the data statement has \<open>limit=50\<close>.
\<close>

theorem empty_json_counterexample:
  "default_limit (config small_engine) = 20
   \<and> filter_with_json [''id'', ''name'', ''age''] [''id'', ''name'', ''age''] sample_lib
       sample_parsers user_storage [] (Some small_engine) []
     = (Inr \<lparr>items = users, total = 3\<rparr>,
        [Count select_model,
         Rows \<lparr>wheres = [], ordering = [], q_offset = Some 0, q_limit = Some 50\<rparr>])
   \<and> filter_by_params small_engine sample_lib user_storage FilterParams_default []
     = (Inr \<lparr>items = users, total = 3\<rparr>,
        [Count select_model,
         Rows \<lparr>wheres = [], ordering = [], q_offset = Some 0, q_limit = Some 50\<rparr>])"
  by code_simp

section \<open>Advanced filters that lack keys\<close>

lemma bnd_simps: "bnd (Inr x) f = f x" "bnd (Inl e) f = Inl e"
  by (simp_all add: bnd_def)

lemma advanced_loop_lacking:
  "lacks_group_keys g \<Longrightarrow> advanced_loop eng (g # rest) acc = advanced_loop eng rest acc"
  by (cases g) (auto simp: lacks_group_keys_def py_in_def bnd_def)

lemma item_loop_lacking:
  "lacks_item_keys item \<Longrightarrow> item_loop eng (item # rest) fs bad = item_loop eng rest fs bad"
  by (cases item) (auto simp: lacks_item_keys_def py_in_def bnd_def)

lemma advanced_loop_cons_cong:
  "(\<And>acc. advanced_loop eng rest acc = advanced_loop eng rest' acc) \<Longrightarrow>
   advanced_loop eng (g # rest) acc = advanced_loop eng (g # rest') acc"
  by (simp add: bnd_def split: sum.splits prod.splits pyval.splits cong: if_cong)

lemma item_loop_cons_cong:
  "(\<And>fs bad. item_loop eng rest fs bad = item_loop eng rest' fs bad) \<Longrightarrow>
   item_loop eng (item # rest) fs bad = item_loop eng (item # rest') fs bad"
  by (simp add: bnd_def split: sum.splits cong: if_cong)

lemma advanced_loop_skip:
  "advanced_loop eng gs acc = advanced_loop eng (filter keeps_group gs) acc"
proof (induction gs arbitrary: acc)
  case Nil
  then show ?case by simp
next
  case (Cons g gs)
  show ?case
  proof (cases "lacks_group_keys g")
    case True
    then have "filter keeps_group (g # gs) = filter keeps_group gs"
      by (simp add: keeps_group_def)
    moreover have "advanced_loop eng (g # gs) acc = advanced_loop eng gs acc"
      using True by (rule advanced_loop_lacking)
    ultimately show ?thesis using Cons.IH by (simp only:)
  next
    case False
    then have "filter keeps_group (g # gs) = g # filter keeps_group gs"
      by (simp add: keeps_group_def)
    then show ?thesis using advanced_loop_cons_cong [OF Cons.IH] by (simp only:)
  qed
qed

lemma item_loop_skip:
  "item_loop eng its fs bad = item_loop eng (filter keeps_item its) fs bad"
proof (induction its arbitrary: fs bad)
  case Nil
  then show ?case by simp
next
  case (Cons item its)
  show ?case
  proof (cases "lacks_item_keys item")
    case True
    then have "filter keeps_item (item # its) = filter keeps_item its"
      by (simp add: keeps_item_def)
    moreover have "item_loop eng (item # its) fs bad = item_loop eng its fs bad"
      using True by (rule item_loop_lacking)
    ultimately show ?thesis using Cons.IH by (simp only:)
  next
    case False
    then have "filter keeps_item (item # its) = item # filter keeps_item its"
      by (simp add: keeps_item_def)
    then show ?thesis using item_loop_cons_cong [OF Cons.IH] by (simp only:)
  qed
qed

lemma params_advanced_skip:
  "params_advanced eng lib (p\<lparr>advanced_filters := Some gs\<rparr>) query
   = params_advanced eng lib (p\<lparr>advanced_filters := Some (filter keeps_group gs)\<rparr>) query"
proof (cases "filter keeps_group gs = []")
  case True
  then have "advanced_loop eng gs [] = Inr []"
    using advanced_loop_skip [of eng gs "[]"] by simp
  with True show ?thesis
    by (simp add: params_advanced_def truthy_list_def bnd_def)
next
  case False
  then have "gs \<noteq> []" by auto
  with False show ?thesis
    using advanced_loop_skip [of eng gs "[]"]
    by (simp add: params_advanced_def truthy_list_def)
qed

lemma filter_by_params_advanced_cong:
  assumes "\<And>query. params_advanced eng lib (p\<lparr>advanced_filters := a\<rparr>) query
                 = params_advanced eng lib (p\<lparr>advanced_filters := b\<rparr>) query"
  shows "filter_by_params eng lib st (p\<lparr>advanced_filters := a\<rparr>) calls
       = filter_by_params eng lib st (p\<lparr>advanced_filters := b\<rparr>) calls"
proof -
  have "params_advanced eng lib (p\<lparr>advanced_filters := a\<rparr>)
      = params_advanced eng lib (p\<lparr>advanced_filters := b\<rparr>)"
    using assms by (rule ext)
  moreover have "params_simple eng lib (p\<lparr>advanced_filters := a\<rparr>)
      = params_simple eng lib (p\<lparr>advanced_filters := b\<rparr>)"
    by (rule ext) (simp add: params_simple_def)
  ultimately show ?thesis
    by (simp add: filter_by_params_def is_desc_def Let_def cong: sum.case_cong)
qed

lemma advanced_loop_items_cong:
  assumes "map_of d ''operator'' = map_of d' ''operator''"
    and "map_of d ''items'' = Some (VList its)"
    and "map_of d' ''items'' = Some (VList (filter keeps_item its))"
  shows "advanced_loop eng (VDict d # rest) acc = advanced_loop eng (VDict d' # rest) acc"
  using assms item_loop_skip [of eng its "[]" "[]"]
  by (cases "map_of d' ''operator''")
     (simp_all add: py_in_def has_key_def py_getitem_def py_iter_def bnd_simps)

lemma normalize_not_list:
  assumes "\<forall>l. filters p \<noteq> FList l"
  shows "normalize_and_validate_filters (p\<lparr>advanced_filters := a\<rparr>)
       = (case normalize_and_validate_filters p of
            Inl e \<Rightarrow> Inl e
          | Inr q \<Rightarrow> Inr (q\<lparr>advanced_filters := a\<rparr>))"
  using assms
  by (cases "filters p")
     (auto simp: normalize_and_validate_filters_def split: option.splits)

text \<open>
  C10. The entries of an \<open>advanced_filters\<close> that is supplied directly are not
  validated: when \<open>filters\<close> is not a list, the validator of \<open>FilterParams\<close> does to
  the parameters what it does whatever \<open>advanced_filters\<close> holds. \<open>filter_by_params\<close>
  skips every group object that lacks the key \<open>operator\<close> or the key \<open>items\<close>: the
  call with such groups executes and returns what the call without them does (with
  none at all, when every group is such a group), so they add no predicate and raise
  no error. In the same way the loop over the items of a group skips every item object
  that lacks the key \<open>name\<close> or the key \<open>value\<close>, and a group gives what the group
  without these items gives.
\<close>

theorem advanced_filters_lacking_keys_ignored:
  "filter_by_params eng lib st (p\<lparr>advanced_filters := Some gs\<rparr>) calls
     = filter_by_params eng lib st (p\<lparr>advanced_filters := Some (filter keeps_group gs)\<rparr>) calls
   \<and> (list_all lacks_group_keys gs \<longrightarrow>
        filter_by_params eng lib st (p\<lparr>advanced_filters := Some gs\<rparr>) calls
        = filter_by_params eng lib st (p\<lparr>advanced_filters := Some []\<rparr>) calls)
   \<and> item_loop eng its fs bad = item_loop eng (filter keeps_item its) fs bad
   \<and> (map_of d ''operator'' = map_of d' ''operator'' \<and> map_of d ''items'' = Some (VList its)
        \<and> map_of d' ''items'' = Some (VList (filter keeps_item its)) \<longrightarrow>
        filter_by_params eng lib st (p\<lparr>advanced_filters := Some (VDict d # gs)\<rparr>) calls
        = filter_by_params eng lib st (p\<lparr>advanced_filters := Some (VDict d' # gs)\<rparr>) calls)
   \<and> ((\<forall>l. filters p \<noteq> FList l) \<longrightarrow>
        normalize_and_validate_filters (p\<lparr>advanced_filters := Some gs\<rparr>)
        = (case normalize_and_validate_filters p of
             Inl e \<Rightarrow> Inl e
           | Inr q \<Rightarrow> Inr (q\<lparr>advanced_filters := Some gs\<rparr>)))"
proof (intro conjI impI)
  show skip: "filter_by_params eng lib st (p\<lparr>advanced_filters := Some gs\<rparr>) calls
     = filter_by_params eng lib st (p\<lparr>advanced_filters := Some (filter keeps_group gs)\<rparr>) calls"
    by (rule filter_by_params_advanced_cong) (rule params_advanced_skip)
  show "item_loop eng its fs bad = item_loop eng (filter keeps_item its) fs bad"
    by (rule item_loop_skip)
  {
    assume "list_all lacks_group_keys gs"
    then have "filter keeps_group gs = []"
      by (induction gs) (auto simp: keeps_group_def)
    with skip show "filter_by_params eng lib st (p\<lparr>advanced_filters := Some gs\<rparr>) calls
        = filter_by_params eng lib st (p\<lparr>advanced_filters := Some []\<rparr>) calls"
      by simp
  }
  {
    assume h: "map_of d ''operator'' = map_of d' ''operator'' \<and> map_of d ''items'' = Some (VList its)
        \<and> map_of d' ''items'' = Some (VList (filter keeps_item its))"
    have "advanced_loop eng (VDict d # gs) [] = advanced_loop eng (VDict d' # gs) []"
      using h by (intro advanced_loop_items_cong) simp_all
    then have "params_advanced eng lib (p\<lparr>advanced_filters := Some (VDict d # gs)\<rparr>) query
             = params_advanced eng lib (p\<lparr>advanced_filters := Some (VDict d' # gs)\<rparr>) query"
      for query
      by (simp add: params_advanced_def truthy_list_def del: advanced_loop.simps)
    then show "filter_by_params eng lib st (p\<lparr>advanced_filters := Some (VDict d # gs)\<rparr>) calls
        = filter_by_params eng lib st (p\<lparr>advanced_filters := Some (VDict d' # gs)\<rparr>) calls"
      by (rule filter_by_params_advanced_cong)
  }
  {
    assume "\<forall>l. filters p \<noteq> FList l"
    then show "normalize_and_validate_filters (p\<lparr>advanced_filters := Some gs\<rparr>)
        = (case normalize_and_validate_filters p of
             Inl e \<Rightarrow> Inl e
           | Inr q \<Rightarrow> Inr (q\<lparr>advanced_filters := Some gs\<rparr>))"
      by (rule normalize_not_list)
  }
qed

lemma lacking_group_run:
  "filter_by_params user_engine sample_lib user_storage
     (FilterParams_default\<lparr>advanced_filters :=
        Some [VDict [(''items'', VList [VDict [(''name'', VStr ''secret''), (''value'', VInt 1)]])],
              age_group]\<rparr>) []
   = (Inr \<lparr>items = [[(''id'', VInt 2), (''name'', VStr ''b''), (''age'', VInt 30)],
                    [(''id'', VInt 3), (''name'', VStr ''c''), (''age'', VInt 40)]],
           total = 2\<rparr>,
      [Count \<lparr>wheres = [PAnd [Compare GTE ''age'' (VInt 30)]], ordering = [],
              q_offset = None, q_limit = None\<rparr>,
       Rows \<lparr>wheres = [PAnd [Compare GTE ''age'' (VInt 30)]], ordering = [],
             q_offset = Some 0, q_limit = Some 50\<rparr>])"
  by code_simp

theorem advanced_filters_lacking_keys_ignored_witness:
  "list_all lacks_group_keys
     [VDict [(''items'', VList [VDict [(''name'', VStr ''secret''), (''value'', VInt 1)]])]]
   \<and> filter_by_params user_engine sample_lib user_storage
       (FilterParams_default\<lparr>advanced_filters :=
          Some [VDict [(''items'', VList [VDict [(''name'', VStr ''secret''), (''value'', VInt 1)]])]]\<rparr>) []
     = filter_by_params user_engine sample_lib user_storage
         (FilterParams_default\<lparr>advanced_filters := Some []\<rparr>) []
   \<and> filter_by_params user_engine sample_lib user_storage
       (FilterParams_default\<lparr>advanced_filters :=
          Some [VDict [(''items'', VList [VDict [(''name'', VStr ''secret''), (''value'', VInt 1)]])],
                age_group]\<rparr>) []
     = filter_by_params user_engine sample_lib user_storage
         (FilterParams_default\<lparr>advanced_filters := Some [age_group]\<rparr>) []
   \<and> (\<forall>l. filters FilterParams_default \<noteq> FList l)
   \<and> normalize_and_validate_filters
       (FilterParams_default\<lparr>advanced_filters := Some [VDict [(''x'', VNone)]]\<rparr>)
     = Inr (FilterParams_default\<lparr>advanced_filters := Some [VDict [(''x'', VNone)]]\<rparr>)
   \<and> filter_by_params user_engine sample_lib user_storage
       (FilterParams_default\<lparr>advanced_filters :=
          Some [VDict [(''operator'', VStr ''and''),
                       (''items'', VList [VDict [(''name'', VStr ''secret'')],
                                          VDict [(''name'', VStr ''age''), (''value'', VInt 30),
                                                 (''operator'', VStr ''>='')]])]]\<rparr>) []
     = filter_by_params user_engine sample_lib user_storage
         (FilterParams_default\<lparr>advanced_filters := Some [age_group]\<rparr>) []"
proof -
  let ?its = "[VDict [(''name'', VStr ''secret'')],
               VDict [(''name'', VStr ''age''), (''value'', VInt 30), (''operator'', VStr ''>='')]]"
  let ?d = "[(''operator'', VStr ''and''), (''items'', VList ?its)]"
  let ?d' = "[(''operator'', VStr ''and''),
              (''items'', VList [VDict [(''name'', VStr ''age''), (''value'', VInt 30),
                                        (''operator'', VStr ''>='')]])]"
  have i1: "map_of ?d ''operator'' = map_of ?d' ''operator''" by simp
  have i2: "map_of ?d ''items'' = Some (VList ?its)" by simp
  have i3: "map_of ?d' ''items'' = Some (VList (filter keeps_item ?its))" by code_simp
  from advanced_filters_lacking_keys_ignored [where eng = user_engine and lib = sample_lib
      and st = user_storage and p = FilterParams_default and calls = "[]" and gs = "[]"
      and d = ?d and d' = ?d' and its = ?its] i1 i2 i3
  have 4: "filter_by_params user_engine sample_lib user_storage
       (FilterParams_default\<lparr>advanced_filters := Some [VDict ?d]\<rparr>) []
     = filter_by_params user_engine sample_lib user_storage
         (FilterParams_default\<lparr>advanced_filters := Some [VDict ?d']\<rparr>) []"
    by blast
  have ag: "age_group = VDict ?d'" by (simp add: age_group_def)
  let ?g = "VDict [(''items'', VList [VDict [(''name'', VStr ''secret''), (''value'', VInt 1)]])]"
  have l: "list_all lacks_group_keys [?g]" by code_simp
  have k: "filter keeps_group [?g, age_group] = [age_group]" by code_simp
  have n: "\<forall>l. filters FilterParams_default \<noteq> FList l"
    by (simp add: FilterParams_default_def)
  have d: "normalize_and_validate_filters FilterParams_default = Inr FilterParams_default"
    by code_simp
  note th = advanced_filters_lacking_keys_ignored [where eng = user_engine and lib = sample_lib
      and st = user_storage and p = FilterParams_default and calls = "[]"]
  from th [where gs = "[?g]"] l
  have 1: "filter_by_params user_engine sample_lib user_storage
       (FilterParams_default\<lparr>advanced_filters := Some [?g]\<rparr>) []
     = filter_by_params user_engine sample_lib user_storage
         (FilterParams_default\<lparr>advanced_filters := Some []\<rparr>) []"
    by blast
  from th [where gs = "[?g, age_group]"] k
  have 2: "filter_by_params user_engine sample_lib user_storage
       (FilterParams_default\<lparr>advanced_filters := Some [?g, age_group]\<rparr>) []
     = filter_by_params user_engine sample_lib user_storage
         (FilterParams_default\<lparr>advanced_filters := Some [age_group]\<rparr>) []"
    by simp
  from th [where gs = "[VDict [(''x'', VNone)]]"] n d
  have 3: "normalize_and_validate_filters
       (FilterParams_default\<lparr>advanced_filters := Some [VDict [(''x'', VNone)]]\<rparr>)
     = Inr (FilterParams_default\<lparr>advanced_filters := Some [VDict [(''x'', VNone)]]\<rparr>)"
    by simp
  from l 1 2 n 3 4 ag show ?thesis by simp
qed

section \<open>Fields that are not allowed\<close>

lemma Filter_new_error: "Filter_new a = Inl e \<Longrightarrow> \<exists>ms. e = ValidationError ms"
  by (auto simp: Filter_new_def split: sum.splits prod.splits)

lemma simple_loop_Inl:
  "simple_loop eng d fs bad = Inl e \<Longrightarrow> \<exists>ms. e = ValidationError ms"
proof (induction d arbitrary: fs bad)
  case Nil
  then show ?case by simp
next
  case (Cons kv d)
  obtain k v where kv: "kv = (k, v)" by (cases kv)
  show ?case
  proof (cases "validate_field eng k")
    case True
    show ?thesis
    proof (cases "Filter_new \<lparr>a_name = Some (VStr k), a_op = Some (OpMember EQ),
                         a_value = Some v, a_type = None\<rparr>")
      case (Inl x)
      with Cons.prems kv True have "e = x" by (simp add: bnd_simps)
      with Inl Filter_new_error show ?thesis by blast
    next
      case (Inr f)
      with Cons.prems kv True have "simple_loop eng d (fs @ [f]) bad = Inl e"
        by (simp add: bnd_simps)
      then show ?thesis by (rule Cons.IH)
    qed
  next
    case False
    with Cons.prems kv have "simple_loop eng d fs (bad @ [k]) = Inl e" by simp
    then show ?thesis by (rule Cons.IH)
  qed
qed

lemma simple_loop_Inr:
  "simple_loop eng d fs bad = Inr (fs', bad') \<Longrightarrow>
   bad' = bad @ filter (\<lambda>k. \<not> validate_field eng k) (map fst d)"
proof (induction d arbitrary: fs bad)
  case Nil
  then show ?case by simp
next
  case (Cons kv d)
  obtain k v where kv: "kv = (k, v)" by (cases kv)
  show ?case
  proof (cases "validate_field eng k")
    case True
    with Cons.prems kv obtain f where
      "simple_loop eng d (fs @ [f]) bad = Inr (fs', bad')"
      by (auto simp: bnd_def split: sum.splits)
    from Cons.IH [OF this] True kv show ?thesis by simp
  next
    case False
    with Cons.prems kv have "simple_loop eng d fs (bad @ [k]) = Inr (fs', bad')" by simp
    from Cons.IH [OF this] False kv show ?thesis by simp
  qed
qed

lemma simple_loop_builds:
  "list_all (simple_builds eng) d \<Longrightarrow> \<exists>r. simple_loop eng d fs bad = Inr r"
proof (induction d arbitrary: fs bad)
  case Nil
  then show ?case by simp
next
  case (Cons kv d)
  obtain k v where kv: "kv = (k, v)" by (cases kv)
  from Cons.prems have rest: "list_all (simple_builds eng) d" by simp
  show ?case
  proof (cases "validate_field eng k")
    case True
    with Cons.prems kv obtain f where
      "Filter_new \<lparr>a_name = Some (VStr k), a_op = Some (OpMember EQ),
                   a_value = Some v, a_type = None\<rparr> = Inr f"
      by (auto simp: simple_builds_def is_ok_def split: sum.splits)
    with True kv Cons.IH [OF rest] show ?thesis by (simp add: bnd_simps)
  next
    case False
    with kv Cons.IH [OF rest] show ?thesis by simp
  qed
qed

lemma simple_loop_Inr_builds:
  "simple_loop eng d fs bad = Inr r \<Longrightarrow> list_all (simple_builds eng) d"
proof (induction d arbitrary: fs bad)
  case Nil
  then show ?case by simp
next
  case (Cons kv d)
  obtain k v where kv: "kv = (k, v)" by (cases kv)
  show ?case
  proof (cases "validate_field eng k")
    case True
    with Cons.prems kv obtain f where
      f: "Filter_new \<lparr>a_name = Some (VStr k), a_op = Some (OpMember EQ),
                      a_value = Some v, a_type = None\<rparr> = Inr f"
      and r: "simple_loop eng d (fs @ [f]) bad = Inr r"
      by (auto simp: bnd_def split: sum.splits)
    from f kv have "simple_builds eng kv" by (simp add: simple_builds_def is_ok_def)
    with Cons.IH [OF r] show ?thesis by simp
  next
    case False
    with Cons.prems kv have "simple_loop eng d fs (bad @ [k]) = Inr r" by simp
    from Cons.IH [OF this] False kv show ?thesis by (simp add: simple_builds_def)
  qed
qed

lemma join_fields_strs: "join_fields (map VStr ns) = Inr ns"
  by (induction ns) (simp_all add: bnd_simps)

lemma item_loop_Cons:
  "item_loop eng (item # rest) fs bad =
     bnd (item_present item) (\<lambda>present.
       if present then
         bnd (py_getitem item ''name'') (\<lambda>field_name.
         bnd (validate_field_val eng field_name) (\<lambda>ok.
           if \<not> ok then item_loop eng rest fs (bad @ [field_name])
           else
             bnd (py_get item ''operator'' (VStr ''='')) (\<lambda>op_str.
             bnd (from_string op_str) (\<lambda>filter_op.
             bnd (py_getitem item ''value'') (\<lambda>v.
             bnd (py_get item ''data_type'' VNone) (\<lambda>dt.
             bnd (Filter_new \<lparr>a_name = Some field_name, a_op = Some (OpMember filter_op),
                              a_value = Some v, a_type = Some dt\<rparr>) (\<lambda>f.
               item_loop eng rest (fs @ [f]) bad)))))))
       else item_loop eng rest fs bad)"
  by (simp add: item_present_def)

lemma invalid_names_Cons:
  "invalid_names eng (item # rest) =
     (case item_field item of
        None \<Rightarrow> invalid_names eng rest
      | Some n \<Rightarrow> if validate_field eng n then invalid_names eng rest
                  else n # invalid_names eng rest)"
  by (simp add: invalid_names_def List.map_filter_simps split: option.splits)

lemma item_loop_quiet:
  "list_all (item_quiet eng) its \<Longrightarrow>
   \<exists>fs'. item_loop eng its fs bad = Inr (fs', bad @ map VStr (invalid_names eng its))"
proof (induction its arbitrary: fs bad)
  case Nil
  then show ?case by (simp add: invalid_names_def List.map_filter_simps)
next
  case (Cons item its)
  from Cons.prems have rest: "list_all (item_quiet eng) its"
    and q: "item_quiet eng item" by simp_all
  from q obtain present where pr: "item_present item = Inr present"
    by (auto simp: item_quiet_def split: sum.splits)
  show ?case
  proof (cases present)
    case False
    with pr have "item_field item = None" by (simp add: item_field_def)
    then have n: "invalid_names eng (item # its) = invalid_names eng its"
      by (simp add: invalid_names_Cons)
    from pr False have "item_loop eng (item # its) fs bad = item_loop eng its fs bad"
      by (simp only: item_loop_Cons bnd_simps if_False)
    with n Cons.IH [OF rest, of fs bad] show ?thesis by (simp only:)
  next
    case True
    with q pr obtain n where nm: "py_getitem item ''name'' = Inr (VStr n)"
      by (auto simp: item_quiet_def split: sum.splits pyval.splits)
    from pr True nm have fld: "item_field item = Some n" by (simp add: item_field_def)
    have vf: "validate_field_val eng (VStr n) = Inr (validate_field eng n)"
      by (simp add: validate_field_val_def)
    show ?thesis
    proof (cases "validate_field eng n")
      case False
      with fld have n: "invalid_names eng (item # its) = n # invalid_names eng its"
        by (simp add: invalid_names_Cons)
      from pr True nm vf False
      have "item_loop eng (item # its) fs bad = item_loop eng its fs (bad @ [VStr n])"
        by (simp add: item_loop_Cons bnd_simps del: item_loop.simps)
      moreover from Cons.IH [OF rest, of fs "bad @ [VStr n]"] obtain fs' where
        "item_loop eng its fs (bad @ [VStr n])
         = Inr (fs', (bad @ [VStr n]) @ map VStr (invalid_names eng its))" by blast
      ultimately show ?thesis using n by simp
    next
      case valid: True
      with fld have n: "invalid_names eng (item # its) = invalid_names eng its"
        by (simp add: invalid_names_Cons)
      from q pr True nm valid obtain op_str filter_op v dt f where
        steps: "py_get item ''operator'' (VStr ''='') = Inr op_str"
          "from_string op_str = Inr filter_op"
          "py_getitem item ''value'' = Inr v"
          "py_get item ''data_type'' VNone = Inr dt"
          "Filter_new \<lparr>a_name = Some (VStr n), a_op = Some (OpMember filter_op),
                       a_value = Some v, a_type = Some dt\<rparr> = Inr f"
        by (auto simp: item_quiet_def is_ok_def bnd_def split: sum.splits)
      from pr True nm vf valid steps
      have "item_loop eng (item # its) fs bad = item_loop eng its (fs @ [f]) bad"
        by (simp add: item_loop_Cons bnd_simps del: item_loop.simps)
      with n Cons.IH [OF rest, of "fs @ [f]" bad] show ?thesis by (simp only:)
    qed
  qed
qed

lemma advanced_loop_after:
  "advanced_loop eng pre acc0 = Inr acc \<Longrightarrow>
   advanced_loop eng (pre @ rest) acc0 = advanced_loop eng rest acc"
proof (induction pre arbitrary: acc0)
  case Nil
  then show ?case by simp
next
  case (Cons g pre)
  from Cons.prems show ?case
    by (auto simp: bnd_def Cons.IH split: sum.splits if_splits prod.splits)
qed

lemma advanced_loop_bad_group:
  assumes "map_of d ''operator'' = Some (VStr oper)"
    and "map_of d ''items'' = Some v"
    and "py_iter v = Inr its"
    and "list_all (item_quiet eng) its"
    and "invalid_names eng its \<noteq> []"
  shows "advanced_loop eng (VDict d # rest) acc
       = Inl (ValueError (InvalidFields (invalid_names eng its)))"
proof -
  from item_loop_quiet [OF assms(4), of "[]" "[]"] obtain fs' where
    "item_loop eng its [] [] = Inr (fs', map VStr (invalid_names eng its))" by auto
  with assms(1,2,3,5) show ?thesis
    by (simp add: py_in_def has_key_def py_getitem_def bnd_simps join_fields_strs)
qed

lemma params_simple_bad:
  assumes "filters p = FDict d"
    and "filter (\<lambda>k. \<not> validate_field eng k) (map fst d) \<noteq> []"
  shows "\<exists>e. params_simple eng lib p query = Inl e
           \<and> (e = ValueError (InvalidFields (filter (\<lambda>k. \<not> validate_field eng k) (map fst d)))
                \<or> (\<exists>ms. e = ValidationError ms))
           \<and> (list_all (simple_builds eng) d \<longrightarrow>
                e = ValueError (InvalidFields (filter (\<lambda>k. \<not> validate_field eng k) (map fst d))))
           \<and> (\<not> list_all (simple_builds eng) d \<longrightarrow> (\<exists>ms. e = ValidationError ms))"
proof (cases "simple_loop eng d [] []")
  case (Inl e)
  from assms(2) have "d \<noteq> []" by auto
  with Inl assms(1) have "params_simple eng lib p query = Inl e"
    by (simp add: params_simple_def truthy_filters_def bnd_simps)
  moreover from simple_loop_Inl [OF Inl] have "\<exists>ms. e = ValidationError ms" .
  moreover have "\<not> list_all (simple_builds eng) d"
    using simple_loop_builds [of eng d "[]" "[]"] Inl by auto
  ultimately show ?thesis by blast
next
  case (Inr r)
  obtain fs bad where r: "r = (fs, bad)" by (cases r)
  from simple_loop_Inr [of eng d "[]" "[]" fs bad] Inr r
  have bad: "bad = filter (\<lambda>k. \<not> validate_field eng k) (map fst d)" by simp
  from simple_loop_Inr_builds [OF Inr] have builds: "list_all (simple_builds eng) d" .
  from assms(2) have "d \<noteq> []" by auto
  with Inr r bad assms have "params_simple eng lib p query
      = Inl (ValueError (InvalidFields (filter (\<lambda>k. \<not> validate_field eng k) (map fst d))))"
    by (simp add: params_simple_def truthy_filters_def bnd_simps)
  with builds show ?thesis by blast
qed

lemma filter_by_params_compile_error:
  "bnd (params_simple eng lib p select_model) (params_advanced eng lib p) = Inl e \<Longrightarrow>
   filter_by_params eng lib st p calls = (Inl e, calls)"
  by (simp add: filter_by_params_def)

text \<open>
  C2, as amended. The failures are collected for each batch, not across batches. When
  the simple mapping has a key that is not allowed, \<open>filter_by_params\<close> raises one
  exception of the \<open>ValueError\<close> class and executes no statement: the \<open>ValueError\<close>
  that names every key of the mapping that is not allowed, in order, and no field of
  the advanced groups, or, when the condition of an allowed key does not validate,
  the \<open>ValidationError\<close> of that condition. When the simple mapping compiles and the
  groups before compile, take a group object whose \<open>operator\<close> is a string and whose
  \<open>items\<close> can be iterated, such that the loop passes every item without an exception
  (an item without \<open>name\<close> or \<open>value\<close> is skipped; any other item has a string name,
  and when the name is allowed its operator resolves and its condition validates). If
  at least one item that is not skipped names a field that is not allowed, then
  \<open>filter_by_params\<close> raises one \<open>ValueError\<close> that names every such field of this
  group, in order, no field of a skipped item and no field of a later group; no
  statement is executed.
\<close>

theorem unauthorized_fields_rejected:
  "(filters p = FDict d \<and> filter (\<lambda>k. \<not> validate_field eng k) (map fst d) \<noteq> [] \<longrightarrow>
      (\<exists>e. filter_by_params eng lib st p calls = (Inl e, calls)
          \<and> (e = ValueError (InvalidFields (filter (\<lambda>k. \<not> validate_field eng k) (map fst d)))
               \<or> (\<exists>ms. e = ValidationError ms))
          \<and> (list_all (simple_builds eng) d \<longrightarrow>
               e = ValueError (InvalidFields (filter (\<lambda>k. \<not> validate_field eng k) (map fst d))))
          \<and> (\<not> list_all (simple_builds eng) d \<longrightarrow> (\<exists>ms. e = ValidationError ms))))
   \<and> (params_simple eng lib p select_model = Inr query
        \<and> advanced_filters p = Some (pre @ VDict g # rest)
        \<and> advanced_loop eng pre [] = Inr acc
        \<and> map_of g ''operator'' = Some (VStr oper) \<and> map_of g ''items'' = Some v
        \<and> py_iter v = Inr its
        \<and> list_all (item_quiet eng) its \<and> invalid_names eng its \<noteq> [] \<longrightarrow>
      filter_by_params eng lib st p calls
      = (Inl (ValueError (InvalidFields (invalid_names eng its))), calls))"
proof (intro conjI impI)
  assume "filters p = FDict d \<and> filter (\<lambda>k. \<not> validate_field eng k) (map fst d) \<noteq> []"
  then obtain e where
    e: "params_simple eng lib p select_model = Inl e"
    and k: "e = ValueError (InvalidFields (filter (\<lambda>k. \<not> validate_field eng k) (map fst d)))
                \<or> (\<exists>ms. e = ValidationError ms)"
    and b: "list_all (simple_builds eng) d \<longrightarrow>
                e = ValueError (InvalidFields (filter (\<lambda>k. \<not> validate_field eng k) (map fst d)))"
    and c: "\<not> list_all (simple_builds eng) d \<longrightarrow> (\<exists>ms. e = ValidationError ms)"
    using params_simple_bad [of p d eng lib select_model] by blast
  from e have "filter_by_params eng lib st p calls = (Inl e, calls)"
    by (intro filter_by_params_compile_error) (simp add: bnd_simps)
  with k b c show "\<exists>e. filter_by_params eng lib st p calls = (Inl e, calls)
          \<and> (e = ValueError (InvalidFields (filter (\<lambda>k. \<not> validate_field eng k) (map fst d)))
               \<or> (\<exists>ms. e = ValidationError ms))
          \<and> (list_all (simple_builds eng) d \<longrightarrow>
               e = ValueError (InvalidFields (filter (\<lambda>k. \<not> validate_field eng k) (map fst d))))
          \<and> (\<not> list_all (simple_builds eng) d \<longrightarrow> (\<exists>ms. e = ValidationError ms))"
    by blast
next
  assume h: "params_simple eng lib p select_model = Inr query
        \<and> advanced_filters p = Some (pre @ VDict g # rest)
        \<and> advanced_loop eng pre [] = Inr acc
        \<and> map_of g ''operator'' = Some (VStr oper) \<and> map_of g ''items'' = Some v
        \<and> py_iter v = Inr its
        \<and> list_all (item_quiet eng) its \<and> invalid_names eng its \<noteq> []"
  then have "advanced_loop eng (pre @ VDict g # rest) []
           = advanced_loop eng (VDict g # rest) acc"
    by (intro advanced_loop_after) simp
  also have "\<dots> = Inl (ValueError (InvalidFields (invalid_names eng its)))"
    using h by (intro advanced_loop_bad_group [where oper = oper and v = v]) simp_all
  finally have "params_advanced eng lib p query
              = Inl (ValueError (InvalidFields (invalid_names eng its)))"
    using h by (simp add: params_advanced_def truthy_list_def bnd_simps del: advanced_loop.simps)
  with h show "filter_by_params eng lib st p calls
      = (Inl (ValueError (InvalidFields (invalid_names eng its))), calls)"
    by (intro filter_by_params_compile_error) (simp add: bnd_simps)
qed

lemma secret_params_run:
  "filter_by_params user_engine sample_lib user_storage secret_params []
   = (Inl (ValueError (InvalidFields [''secret'', ''salt''])), [])"
  by code_simp

theorem unauthorized_fields_rejected_witness:
  "filter_by_params user_engine sample_lib user_storage secret_params []
     = (Inl (ValueError (InvalidFields [''secret'', ''salt''])), [])
   \<and> filter_by_params user_engine sample_lib user_storage
       (secret_params\<lparr>filters := FDict [],
          advanced_filters := Some ([age_group] @ VDict
            [(''operator'', VStr ''and''),
             (''items'', VList [VDict [(''name'', VStr ''secret'')],
                                VDict [(''name'', VStr ''hidden''), (''value'', VInt 1)],
                                VDict [(''name'', VStr ''age''), (''value'', VInt 30)],
                                VDict [(''name'', VStr ''token''), (''value'', VInt 2)]])]
            # [other_group])\<rparr>) []
     = (Inl (ValueError (InvalidFields [''hidden'', ''token''])), [])
   \<and> (\<exists>ms. filter_by_params (user_engine\<lparr>config := FilterConfig_init (Some [''a b'']) 50 1000 None\<rparr>)
          sample_lib user_storage
          (secret_params\<lparr>filters := FDict [(''a b'', VInt 1), (''secret'', VInt 2)]\<rparr>) []
        = (Inl (ValidationError ms), []))"
proof -
  let ?eng = "user_engine\<lparr>config := FilterConfig_init (Some [''a b'']) 50 1000 None\<rparr>"
  let ?q = "secret_params\<lparr>filters := FDict [(''a b'', VInt 1), (''secret'', VInt 2)]\<rparr>"
  have qf: "filters ?q = FDict [(''a b'', VInt 1), (''secret'', VInt 2)]" by simp
  have qbad: "filter (\<lambda>k. \<not> validate_field ?eng k) (map fst [(''a b'', VInt 1), (''secret'', VInt 2)])
             \<noteq> []"
    by code_simp
  have qnb: "\<not> list_all (simple_builds ?eng) [(''a b'', VInt 1), (''secret'', VInt 2)]"
    by code_simp
  from unauthorized_fields_rejected [where p = ?q and eng = ?eng
      and d = "[(''a b'', VInt 1), (''secret'', VInt 2)]"
      and lib = sample_lib and st = user_storage and calls = "[]"] qf qbad qnb
  have 3: "\<exists>ms. filter_by_params ?eng sample_lib user_storage ?q []
             = (Inl (ValidationError ms), [])"
    by blast
  let ?its = "[VDict [(''name'', VStr ''secret'')],
               VDict [(''name'', VStr ''hidden''), (''value'', VInt 1)],
               VDict [(''name'', VStr ''age''), (''value'', VInt 30)],
               VDict [(''name'', VStr ''token''), (''value'', VInt 2)]]"
  let ?g = "[(''operator'', VStr ''and''), (''items'', VList ?its)]"
  let ?p = "secret_params\<lparr>filters := FDict [],
              advanced_filters := Some ([age_group] @ VDict ?g # [other_group])\<rparr>"
  let ?d = "[(''secret'', VInt 1), (''age'', VInt 30), (''salt'', VInt 2)]"
  have f: "filters secret_params = FDict ?d" by (simp add: secret_params_def)
  have bad: "filter (\<lambda>k. \<not> validate_field user_engine k) (map fst ?d) = [''secret'', ''salt'']"
    by code_simp
  have sb: "list_all (simple_builds user_engine) ?d" by code_simp
  from unauthorized_fields_rejected [where p = secret_params and d = ?d and eng = user_engine
      and lib = sample_lib and st = user_storage and calls = "[]"] f bad sb
  have 1: "filter_by_params user_engine sample_lib user_storage secret_params []
     = (Inl (ValueError (InvalidFields [''secret'', ''salt''])), [])"
    by auto
  have s: "params_simple user_engine sample_lib ?p select_model = Inr select_model"
    by code_simp
  have a: "advanced_filters ?p = Some ([age_group] @ VDict ?g # [other_group])" by simp
  have l: "advanced_loop user_engine [age_group] []
         = Inr [\<lparr>group_op = ''and'',
                  group_filters = [\<lparr>name = ''age'', op = GTE, fvalue = VInt 30, ftype = None\<rparr>]\<rparr>]"
    by code_simp
  have o: "map_of ?g ''operator'' = Some (VStr ''and'')" by simp
  have i: "map_of ?g ''items'' = Some (VList ?its)" by simp
  have it: "py_iter (VList ?its) = Inr ?its" by (simp add: py_iter_def)
  have b: "list_all (item_quiet user_engine) ?its" by code_simp
  have u: "invalid_names user_engine ?its = [''hidden'', ''token'']" by code_simp
  from unauthorized_fields_rejected [where p = ?p and eng = user_engine and lib = sample_lib
      and st = user_storage and calls = "[]" and query = select_model and pre = "[age_group]"
      and g = ?g and rest = "[other_group]" and oper = "''and''" and its = ?its
      and v = "VList ?its"
      and acc = "[\<lparr>group_op = ''and'',
                  group_filters = [\<lparr>name = ''age'', op = GTE, fvalue = VInt 30, ftype = None\<rparr>]\<rparr>]"]
    s a l o i it b u
  have 2: "filter_by_params user_engine sample_lib user_storage ?p []
     = (Inl (ValueError (InvalidFields [''hidden'', ''token''])), [])"
    by (simp del: advanced_loop.simps)
  from 1 2 3 show ?thesis by blast
qed

text \<open>
  The claim as stated fails at parameters whose simple mapping has the keys
  \<open>secret\<close>, \<open>age\<close>, \<open>salt\<close> and whose one advanced group has the items \<open>hidden\<close>,
  \<open>age\<close>, \<open>token\<close>, on the example entity: the offending fields are \<open>secret\<close>,
  \<open>salt\<close>, \<open>hidden\<close> and \<open>token\<close>, and the message names \<open>secret\<close> and \<open>salt\<close>.
\<close>

theorem unauthorized_fields_counterexample:
  "offending_fields user_engine secret_params = [''secret'', ''salt'', ''hidden'', ''token'']
   \<and> filter_by_params user_engine sample_lib user_storage secret_params []
     = (Inl (ValueError (InvalidFields [''secret'', ''salt''])), [])
   \<and> \<not> set (offending_fields user_engine secret_params) \<subseteq> set [''secret'', ''salt'']"
  by code_simp

end
